theory Spec2Isabelle
  imports Main "HOL-Library.Multiset"
begin

section \<open>Data model (shared/schema.ts)\<close>

text \<open>
  JavaScript numbers that hold identifiers and millisecond timestamps are modelled as
  unbounded integers (they are exact in the double range below \<open>2^53\<close>); strings are
  lists of characters, one list element standing for one unit counted by \<open>.length\<close>.
  \<open>null\<close> and \<open>undefined\<close> are \<open>None\<close>.
\<close>

datatype priority = Low | Medium | High

text \<open>
  A task as \<open>storage.ts\<close> builds and reads it: the columns of the \<open>tasks\<close> table and
  the owner \<open>userId\<close>. The field \<open>id\<close> is called \<open>taskId\<close> here.
\<close>

record Task =
  taskId :: int
  title :: string
  description :: "string option"
  priority :: priority
  dueDate :: "string option"
  completed :: bool
  userId :: int
  createdAt :: int
  updatedAt :: int

text \<open>
  \<open>InsertTask & { userId: number }\<close>, the argument of \<open>createTask\<close>. The optional
  members of the object are options; \<open>createTask\<close> itself supplies the fall-back values.
\<close>

record InsertTask =
  ins_title :: string
  ins_description :: "string option"
  ins_priority :: "priority option"
  ins_dueDate :: "string option"
  ins_completed :: "bool option"

record InsertTaskOwned = InsertTask +
  ins_userId :: int

text \<open>
  \<open>Partial<UpdateTask>\<close>, the argument of \<open>updateTask\<close>: every member may be absent,
  the \<open>id\<close> of \<open>updateTaskSchema\<close> included.
\<close>

record UpdateTask =
  upd_id :: "int option"
  upd_title :: "string option"
  upd_description :: "string option"
  upd_priority :: "priority option"
  upd_dueDate :: "string option"
  upd_completed :: "bool option"

section \<open>The JavaScript \<open>Map\<close>\<close>

text \<open>
  A \<open>Map\<close> iterates in insertion order, \<open>set\<close> on a present key keeps the key's place,
  and \<open>delete\<close> tells whether the key was there. It is an association list.
\<close>

type_synonym ('k, 'v) jsmap = "('k \<times> 'v) list"

definition Map_get :: "('k, 'v) jsmap \<Rightarrow> 'k \<Rightarrow> 'v option" where
  "Map_get m k = map_of m k"

primrec Map_set :: "'k \<Rightarrow> 'v \<Rightarrow> ('k, 'v) jsmap \<Rightarrow> ('k, 'v) jsmap" where
  "Map_set k v [] = [(k, v)]"
| "Map_set k v (p # ps) = (if fst p = k then (k, v) # ps else p # Map_set k v ps)"

definition Map_delete :: "'k \<Rightarrow> ('k, 'v) jsmap \<Rightarrow> bool \<times> ('k, 'v) jsmap" where
  "Map_delete k m = (map_of m k \<noteq> None, filter (\<lambda>p. fst p \<noteq> k) m)"

definition Map_values :: "('k, 'v) jsmap \<Rightarrow> 'v list" where
  "Map_values m = map snd m"

section \<open>\<open>Array.prototype.sort\<close> with a comparator\<close>

text \<open>
  The sort is stable; \<open>cmp a b \<le> 0\<close> keeps \<open>a\<close> in front of \<open>b\<close>.
\<close>

primrec sort_insert :: "('a \<Rightarrow> 'a \<Rightarrow> int) \<Rightarrow> 'a \<Rightarrow> 'a list \<Rightarrow> 'a list" where
  "sort_insert cmp x [] = [x]"
| "sort_insert cmp x (y # ys) =
     (if cmp x y \<le> 0 then x # y # ys else y # sort_insert cmp x ys)"

definition Array_sort :: "('a \<Rightarrow> 'a \<Rightarrow> int) \<Rightarrow> 'a list \<Rightarrow> 'a list" where
  "Array_sort cmp xs = foldr (sort_insert cmp) xs []"

section \<open>MemStorage (server/storage.ts)\<close>

text \<open>
  The task half of the class: the map of tasks and the id counter. The user registry
  (\<open>users\<close>, \<open>nextUserId\<close>) is read and written by no task method.
\<close>

record MemStorage =
  tasks :: "(int, Task) jsmap"
  nextTaskId :: int

definition MemStorage_init :: MemStorage where
  "MemStorage_init = \<lparr>tasks = [], nextTaskId = 1\<rparr>"

definition getTasks :: "MemStorage \<Rightarrow> int \<Rightarrow> Task list" where
  "getTasks st uid =
     Array_sort (\<lambda>a b. createdAt b - createdAt a)
       (filter (\<lambda>task. userId task = uid) (Map_values (tasks st)))"

definition getTask :: "MemStorage \<Rightarrow> int \<Rightarrow> int \<Rightarrow> Task option" where
  "getTask st i uid =
     (case Map_get (tasks st) i of
        None \<Rightarrow> None
      | Some task \<Rightarrow> if userId task = uid then Some task else None)"

text \<open>
  \<open>x || y\<close> on an optional string: \<open>undefined\<close> and the empty string are falsy.
\<close>

definition or_null :: "string option \<Rightarrow> string option" where
  "or_null x = (case x of None \<Rightarrow> None | Some s \<Rightarrow> if s = [] then None else Some s)"

text \<open>
  \<open>createTask\<close> reads the clock twice: \<open>t1\<close> and \<open>t2\<close> are the two values of
  \<open>new Date()\<close>.
\<close>

definition createTask :: "MemStorage \<Rightarrow> InsertTaskOwned \<Rightarrow> int \<Rightarrow> int \<Rightarrow> Task \<times> MemStorage" where
  "createTask st taskData t1 t2 =
     (let task = \<lparr>taskId = nextTaskId st,
                  title = ins_title taskData,
                  description = or_null (ins_description taskData),
                  priority = (case ins_priority taskData of None \<Rightarrow> Medium | Some p \<Rightarrow> p),
                  dueDate = or_null (ins_dueDate taskData),
                  completed = (case ins_completed taskData of None \<Rightarrow> False | Some c \<Rightarrow> c),
                  userId = ins_userId taskData,
                  createdAt = t1,
                  updatedAt = t2\<rparr>
      in (task, \<lparr>tasks = Map_set (taskId task) task (tasks st),
                 nextTaskId = nextTaskId st + 1\<rparr>))"

text \<open>The object spread \<open>{ ...task, ...updates, updatedAt: new Date() }\<close>.\<close>

definition spread_updates :: "Task \<Rightarrow> UpdateTask \<Rightarrow> int \<Rightarrow> Task" where
  "spread_updates task updates now =
     \<lparr>taskId = (case upd_id updates of None \<Rightarrow> taskId task | Some i \<Rightarrow> i),
      title = (case upd_title updates of None \<Rightarrow> title task | Some s \<Rightarrow> s),
      description = (case upd_description updates of None \<Rightarrow> description task | Some s \<Rightarrow> Some s),
      priority = (case upd_priority updates of None \<Rightarrow> priority task | Some p \<Rightarrow> p),
      dueDate = (case upd_dueDate updates of None \<Rightarrow> dueDate task | Some s \<Rightarrow> Some s),
      completed = (case upd_completed updates of None \<Rightarrow> completed task | Some c \<Rightarrow> c),
      userId = userId task,
      createdAt = createdAt task,
      updatedAt = now\<rparr>"

definition updateTask ::
  "MemStorage \<Rightarrow> int \<Rightarrow> int \<Rightarrow> UpdateTask \<Rightarrow> int \<Rightarrow> Task option \<times> MemStorage" where
  "updateTask st i uid updates now =
     (case getTask st i uid of
        None \<Rightarrow> (None, st)
      | Some task \<Rightarrow>
          (let updatedTask = spread_updates task updates now
           in (Some updatedTask, st\<lparr>tasks := Map_set i updatedTask (tasks st)\<rparr>)))"

definition deleteTask :: "MemStorage \<Rightarrow> int \<Rightarrow> int \<Rightarrow> bool \<times> MemStorage" where
  "deleteTask st i uid =
     (case getTask st i uid of
        None \<Rightarrow> (False, st)
      | Some task \<Rightarrow>
          (let (r, m) = Map_delete i (tasks st) in (r, st\<lparr>tasks := m\<rparr>)))"

text \<open>
  \<open>new Date(s)\<close> for a string: the empty string is no date; what other strings mean is
  the engine's business, given as \<open>parseDate\<close> (\<open>None\<close> is the invalid date, whose
  time value \<open>NaN\<close> is below nothing).
\<close>

definition new_Date :: "(string \<Rightarrow> int option) \<Rightarrow> string \<Rightarrow> int option" where
  "new_Date parseDate s = (if s = [] then None else parseDate s)"

record TaskStats =
  stat_total :: nat
  stat_completed :: nat
  stat_pending :: nat
  stat_overdue :: nat

text \<open>
  The filter \<open>!t.completed && t.dueDate && new Date(t.dueDate) < now\<close>;
  \<open>null\<close> and the empty string are falsy.
\<close>

definition overdue_test :: "(string \<Rightarrow> int option) \<Rightarrow> int \<Rightarrow> Task \<Rightarrow> bool" where
  "overdue_test parseDate now t =
     (\<not> completed t \<and>
      (case dueDate t of
         None \<Rightarrow> False
       | Some d \<Rightarrow> d \<noteq> [] \<and>
           (case new_Date parseDate d of None \<Rightarrow> False | Some ms \<Rightarrow> ms < now)))"

definition getTaskStats :: "(string \<Rightarrow> int option) \<Rightarrow> MemStorage \<Rightarrow> int \<Rightarrow> int \<Rightarrow> TaskStats" where
  "getTaskStats parseDate st uid now =
     (let userTasks = getTasks st uid
      in \<lparr>stat_total = length userTasks,
          stat_completed = length (filter (\<lambda>t. completed t) userTasks),
          stat_pending = length (filter (\<lambda>t. \<not> completed t) userTasks),
          stat_overdue = length (filter (overdue_test parseDate now) userTasks)\<rparr>)"

section \<open>Sequences of storage operations\<close>

datatype storage_op =
  Op_create InsertTaskOwned int int
| Op_update int int UpdateTask int
| Op_delete int int

text \<open>One operation: the new store and the id handed out, if the operation created a task.\<close>

fun apply_op :: "MemStorage \<Rightarrow> storage_op \<Rightarrow> MemStorage \<times> int option" where
  "apply_op st (Op_create d t1 t2) =
     (let (t, st') = createTask st d t1 t2 in (st', Some (taskId t)))"
| "apply_op st (Op_update i uid u now) = (snd (updateTask st i uid u now), None)"
| "apply_op st (Op_delete i uid) = (snd (deleteTask st i uid), None)"

text \<open>A run: the final store and the ids handed out, oldest first.\<close>

fun run :: "MemStorage \<Rightarrow> storage_op list \<Rightarrow> MemStorage \<times> int list" where
  "run st [] = (st, [])"
| "run st (op # ops) =
     (let (st', r) = apply_op st op; (st'', ids) = run st' ops
      in (st'', (case r of None \<Rightarrow> [] | Some i \<Rightarrow> [i]) @ ids))"

text \<open>
  The update route removes \<open>id\<close> from the payload (\<open>updateTaskSchema.omit({ id: true })\<close>),
  so the updates that reach the store carry none.
\<close>

fun keeps_id :: "storage_op \<Rightarrow> bool" where
  "keeps_id (Op_update i uid u now) = (upd_id u = None)"
| "keeps_id _ = True"

text \<open>
  The store is well formed when every task sits under its own id, every id in use is
  below the counter, and no key occurs twice.
\<close>

definition store_inv :: "MemStorage \<Rightarrow> bool" where
  "store_inv st =
     (list_all (\<lambda>p. taskId (snd p) = fst p \<and> fst p < nextTaskId st) (tasks st) \<and>
      distinct (map fst (tasks st)))"

section \<open>Request payloads and the zod schemas (shared/schema.ts)\<close>

text \<open>
  A request body as \<open>JSON.parse\<close> leaves it. The value of a number is looked at by no
  task schema. Of two members with one name the later one counts.
\<close>

datatype json =
  JNull
| JBool bool
| JNum int
| JStr string
| JArr "json list"
| JObj "(string \<times> json) list"

definition obj_get :: "(string \<times> json) list \<Rightarrow> string \<Rightarrow> json option" where
  "obj_get kvs k = map_of (rev kvs) k"

text \<open>The field names at which a parse found an issue (the root is the empty name).\<close>

datatype ZodError = ZodError "string list"

text \<open>
  The member schemas of \<open>insertTaskSchema\<close>; \<open>None\<close> is an issue. An absent member is
  \<open>undefined\<close>: required for \<open>title\<close>, accepted by \<open>.optional()\<close>, replaced by
  \<open>.default(...)\<close>.
\<close>

definition zod_title :: "json option \<Rightarrow> string option" where
  "zod_title v =
     (case v of
        Some (JStr s) \<Rightarrow> if 1 \<le> length s \<and> length s \<le> 200 then Some s else None
      | _ \<Rightarrow> None)"

definition zod_string_optional :: "json option \<Rightarrow> string option option" where
  "zod_string_optional v =
     (case v of None \<Rightarrow> Some None | Some (JStr s) \<Rightarrow> Some (Some s) | _ \<Rightarrow> None)"

definition priority_of :: "string \<Rightarrow> priority option" where
  "priority_of s =
     (if s = ''low'' then Some Low
      else if s = ''medium'' then Some Medium
      else if s = ''high'' then Some High
      else None)"

definition zod_priority :: "json option \<Rightarrow> priority option" where
  "zod_priority v =
     (case v of None \<Rightarrow> Some Medium | Some (JStr s) \<Rightarrow> priority_of s | _ \<Rightarrow> None)"

definition zod_completed :: "json option \<Rightarrow> bool option" where
  "zod_completed v =
     (case v of None \<Rightarrow> Some False | Some (JBool b) \<Rightarrow> Some b | _ \<Rightarrow> None)"

definition issue :: "string \<Rightarrow> 'a option \<Rightarrow> string list" where
  "issue name r = (case r of None \<Rightarrow> [name] | Some _ \<Rightarrow> [])"

text \<open>
  \<open>insertTaskSchema.parse(req.body)\<close>: members the schema does not name are dropped,
  every issue is collected, and the parse throws if there is one.
\<close>

definition insertTaskSchema_parse :: "json \<Rightarrow> ZodError + InsertTask" where
  "insertTaskSchema_parse data =
     (case data of
        JObj kvs \<Rightarrow>
          (let t = zod_title (obj_get kvs ''title'');
               d = zod_string_optional (obj_get kvs ''description'');
               p = zod_priority (obj_get kvs ''priority'');
               u = zod_string_optional (obj_get kvs ''dueDate'');
               c = zod_completed (obj_get kvs ''completed'')
           in (case (t, d, p, u, c) of
                 (Some t', Some d', Some p', Some u', Some c') \<Rightarrow>
                   Inr \<lparr>ins_title = t', ins_description = d', ins_priority = Some p',
                        ins_dueDate = u', ins_completed = Some c'\<rparr>
               | _ \<Rightarrow>
                   Inl (ZodError (issue ''title'' t @ issue ''description'' d @
                     issue ''priority'' p @ issue ''dueDate'' u @ issue ''completed'' c))))
      | _ \<Rightarrow> Inl (ZodError [[]]))"

text \<open>
  \<open>.partial()\<close> wraps each member schema in \<open>.optional()\<close>: an absent member stays
  absent (no default is filled in), a present one is checked by the member schema.
\<close>

definition zod_partial :: "(json option \<Rightarrow> 'a option) \<Rightarrow> json option \<Rightarrow> 'a option option" where
  "zod_partial inner v =
     (case v of None \<Rightarrow> Some None | Some x \<Rightarrow> map_option Some (inner (Some x)))"

text \<open>\<open>updateTaskSchema.omit({ id: true }).parse(req.body)\<close>.\<close>

definition updateTaskSchema_parse :: "json \<Rightarrow> ZodError + UpdateTask" where
  "updateTaskSchema_parse data =
     (case data of
        JObj kvs \<Rightarrow>
          (let t = zod_partial zod_title (obj_get kvs ''title'');
               d = zod_string_optional (obj_get kvs ''description'');
               p = zod_partial zod_priority (obj_get kvs ''priority'');
               u = zod_string_optional (obj_get kvs ''dueDate'');
               c = zod_partial zod_completed (obj_get kvs ''completed'')
           in (case (t, d, p, u, c) of
                 (Some t', Some d', Some p', Some u', Some c') \<Rightarrow>
                   Inr \<lparr>upd_id = None, upd_title = t', upd_description = d',
                        upd_priority = p', upd_dueDate = u', upd_completed = c'\<rparr>
               | _ \<Rightarrow>
                   Inl (ZodError (issue ''title'' t @ issue ''description'' d @
                     issue ''priority'' p @ issue ''dueDate'' u @ issue ''completed'' c))))
      | _ \<Rightarrow> Inl (ZodError [[]]))"

section \<open>\<open>parseInt\<close>\<close>

text \<open>
  \<open>parseInt(s)\<close> without a radix: white space in front is skipped, a sign is read, a
  prefix \<open>0x\<close> selects base sixteen, and the longest run of digits that follows is the
  number; \<open>None\<close> is \<open>NaN\<close>, the answer when that run is empty. What follows the run is
  not looked at. The result is a double: the integer the digits denote, rounded to 53
  significant bits (to nearest, ties to even) when it has more.
\<close>

fun bit_length :: "nat \<Rightarrow> nat" where
  "bit_length n = (if n = 0 then 0 else Suc (bit_length (n div 2)))"

declare bit_length.simps [simp del]

text \<open>
  The double nearest to a natural number. Below \<open>2^53\<close> it is the number itself. A
  number too large for a finite double gives \<open>Infinity\<close>, written \<open>2^1024\<close> here: it is
  above every finite double, and like \<open>Infinity\<close> it is not \<open>NaN\<close>.
\<close>

definition to_double :: "nat \<Rightarrow> nat" where
  "to_double n =
     (if n < 2 ^ 53 then n
      else (let e = bit_length n - 53;
                q = n div 2 ^ e;
                r = n mod 2 ^ e;
                q' = (if 2 ^ e < 2 * r \<or> (2 * r = 2 ^ e \<and> odd q) then q + 1 else q)
            in if q' * 2 ^ e < 2 ^ 1024 then q' * 2 ^ e else 2 ^ 1024))"

definition is_space :: "char \<Rightarrow> bool" where
  "is_space c = (of_char c \<in> {9, 10, 11, 12, 13, 32, 160 :: nat})"

definition digit_val :: "char \<Rightarrow> nat option" where
  "digit_val c =
     (let n = (of_char c :: nat)
      in if 48 \<le> n \<and> n \<le> 57 then Some (n - 48)
         else if 97 \<le> n \<and> n \<le> 122 then Some (n - 87)
         else if 65 \<le> n \<and> n \<le> 90 then Some (n - 55)
         else None)"

definition is_digit :: "nat \<Rightarrow> char \<Rightarrow> bool" where
  "is_digit radix c = (case digit_val c of None \<Rightarrow> False | Some d \<Rightarrow> d < radix)"

definition digits_value :: "nat \<Rightarrow> string \<Rightarrow> nat" where
  "digits_value radix z =
     foldl (\<lambda>acc c. acc * radix + (case digit_val c of None \<Rightarrow> 0 | Some d \<Rightarrow> d)) 0 z"

definition parseInt :: "string \<Rightarrow> int option" where
  "parseInt s =
     (let s0 = dropWhile is_space s;
          neg = (take 1 s0 = ''-'');
          s1 = (if take 1 s0 = ''-'' \<or> take 1 s0 = ''+'' then drop 1 s0 else s0);
          hex = (take 2 s1 = ''0x'' \<or> take 2 s1 = ''0X'');
          radix = (if hex then 16 else 10);
          s2 = (if hex then drop 2 s1 else s1);
          z = takeWhile (is_digit radix) s2
      in if z = [] then None
         else Some ((if neg then - 1 else 1) * int (to_double (digits_value radix z))))"

section \<open>The task routes (server/routes.ts)\<close>

text \<open>
  The six task routes. \<open>GET /api/tasks/stats\<close> is registered before
  \<open>GET /api/tasks/:id\<close> and is its own route. No task method of \<open>MemStorage\<close> throws,
  so the handlers' catch-all 500 answers do not occur and are left out.
\<close>

datatype route =
  ListTasks
| TaskStatsR
| GetTaskR string
| CreateTaskR json
| UpdateTaskR string json
| DeleteTaskR string

text \<open>
  A request: the \<open>userId\<close> its session carries, if any, and the route it was
  dispatched to with the \<open>:id\<close> parameter and the body.
\<close>

record request =
  session_userId :: "int option"
  route :: route

datatype payload =
  Message string
| ValidationFailed ZodError
| TaskBody Task
| TaskList "Task list"
| StatsBody TaskStats
| Empty

record response =
  status :: nat
  body :: payload

text \<open>The calls made on \<open>storage\<close> while a request is served.\<close>

datatype repo_call =
  Call_getTasks int
| Call_getTaskStats int
| Call_getTask int int
| Call_createTask InsertTaskOwned
| Call_updateTask int int UpdateTask
| Call_deleteTask int int

text \<open>
  \<open>requireAuth\<close>: \<open>!req.session?.userId\<close> holds for a session without \<open>userId\<close> and for
  the falsy \<open>userId\<close> 0. The result is the \<open>userId\<close> the handler reads, \<open>None\<close> when
  the middleware has answered 401.
\<close>

definition requireAuth :: "request \<Rightarrow> int option" where
  "requireAuth req =
     (case session_userId req of
        None \<Rightarrow> None
      | Some u \<Rightarrow> if u = 0 then None else Some u)"

definition invalid_id :: response where
  "invalid_id = \<lparr>status = 400, body = Message ''Invalid task ID''\<rparr>"

definition not_found :: response where
  "not_found = \<lparr>status = 404, body = Message ''Task not found''\<rparr>"

definition get_tasks_route :: "MemStorage \<Rightarrow> int \<Rightarrow> response \<times> MemStorage \<times> repo_call list" where
  "get_tasks_route st uid =
     (\<lparr>status = 200, body = TaskList (getTasks st uid)\<rparr>, st, [Call_getTasks uid])"

definition get_stats_route ::
  "(string \<Rightarrow> int option) \<Rightarrow> (nat \<Rightarrow> int) \<Rightarrow> MemStorage \<Rightarrow> int \<Rightarrow>
     response \<times> MemStorage \<times> repo_call list" where
  "get_stats_route parseDate clock st uid =
     (\<lparr>status = 200, body = StatsBody (getTaskStats parseDate st uid (clock 0))\<rparr>, st,
      [Call_getTaskStats uid])"

definition get_task_route ::
  "MemStorage \<Rightarrow> int \<Rightarrow> string \<Rightarrow> response \<times> MemStorage \<times> repo_call list" where
  "get_task_route st uid idp =
     (case parseInt idp of
        None \<Rightarrow> (invalid_id, st, [])
      | Some i \<Rightarrow>
          (case getTask st i uid of
             None \<Rightarrow> (not_found, st, [Call_getTask i uid])
           | Some task \<Rightarrow> (\<lparr>status = 200, body = TaskBody task\<rparr>, st, [Call_getTask i uid])))"

definition create_task_route ::
  "(nat \<Rightarrow> int) \<Rightarrow> MemStorage \<Rightarrow> int \<Rightarrow> json \<Rightarrow> response \<times> MemStorage \<times> repo_call list" where
  "create_task_route clock st uid data =
     (case insertTaskSchema_parse data of
        Inl e \<Rightarrow> (\<lparr>status = 400, body = ValidationFailed e\<rparr>, st, [])
      | Inr validatedData \<Rightarrow>
          (let taskData = InsertTask.extend validatedData (InsertTaskOwned.fields uid);
               (task, st') = createTask st taskData (clock 0) (clock 1)
           in (\<lparr>status = 201, body = TaskBody task\<rparr>, st', [Call_createTask taskData])))"

definition update_task_route ::
  "(nat \<Rightarrow> int) \<Rightarrow> MemStorage \<Rightarrow> int \<Rightarrow> string \<Rightarrow> json \<Rightarrow>
     response \<times> MemStorage \<times> repo_call list" where
  "update_task_route clock st uid idp data =
     (case parseInt idp of
        None \<Rightarrow> (invalid_id, st, [])
      | Some i \<Rightarrow>
          (case updateTaskSchema_parse data of
             Inl e \<Rightarrow> (\<lparr>status = 400, body = ValidationFailed e\<rparr>, st, [])
           | Inr validatedData \<Rightarrow>
               (case updateTask st i uid validatedData (clock 0) of
                  (None, st') \<Rightarrow> (not_found, st', [Call_updateTask i uid validatedData])
                | (Some task, st') \<Rightarrow>
                    (\<lparr>status = 200, body = TaskBody task\<rparr>, st',
                     [Call_updateTask i uid validatedData]))))"

definition delete_task_route ::
  "MemStorage \<Rightarrow> int \<Rightarrow> string \<Rightarrow> response \<times> MemStorage \<times> repo_call list" where
  "delete_task_route st uid idp =
     (case parseInt idp of
        None \<Rightarrow> (invalid_id, st, [])
      | Some i \<Rightarrow>
          (case deleteTask st i uid of
             (False, st') \<Rightarrow> (not_found, st', [Call_deleteTask i uid])
           | (True, st') \<Rightarrow> (\<lparr>status = 204, body = Empty\<rparr>, st', [Call_deleteTask i uid])))"

text \<open>
  A request to a task route: \<open>requireAuth\<close> first, then the handler. \<open>clock k\<close> is the
  value of the \<open>k\<close>-th \<open>new Date()\<close> evaluated while the request is served. The answer
  is the response, the store afterwards and the calls made on it.
\<close>

definition handle ::
  "(string \<Rightarrow> int option) \<Rightarrow> (nat \<Rightarrow> int) \<Rightarrow> MemStorage \<Rightarrow> request \<Rightarrow>
     response \<times> MemStorage \<times> repo_call list" where
  "handle parseDate clock st req =
     (case requireAuth req of
        None \<Rightarrow> (\<lparr>status = 401, body = Message ''Unauthorized''\<rparr>, st, [])
      | Some uid \<Rightarrow>
          (case route req of
             ListTasks \<Rightarrow> get_tasks_route st uid
           | TaskStatsR \<Rightarrow> get_stats_route parseDate clock st uid
           | GetTaskR idp \<Rightarrow> get_task_route st uid idp
           | CreateTaskR data \<Rightarrow> create_task_route clock st uid data
           | UpdateTaskR idp data \<Rightarrow> update_task_route clock st uid idp data
           | DeleteTaskR idp \<Rightarrow> delete_task_route st uid idp))"

section \<open>Sequences of requests\<close>

text \<open>
  Requests served one after the other, each with the clock it sees: the final store and
  the responses in order.
\<close>

fun serve ::
  "(string \<Rightarrow> int option) \<Rightarrow> MemStorage \<Rightarrow> (request \<times> (nat \<Rightarrow> int)) list \<Rightarrow>
     MemStorage \<times> response list" where
  "serve parseDate st [] = (st, [])"
| "serve parseDate st (rc # rcs) =
     (let (resp, st', calls) = handle parseDate (snd rc) st (fst rc);
          (st'', resps) = serve parseDate st' rcs
      in (st'', resp # resps))"

text \<open>The ids of the tasks that the 201 responses report, in order.\<close>

definition created_ids :: "response list \<Rightarrow> int list" where
  "created_ids resps =
     concat (map (\<lambda>r. if status r = 201
                          then (case body r of TaskBody t \<Rightarrow> [taskId t] | _ \<Rightarrow> [])
                          else []) resps)"

text \<open>
  What one request may do to a well-formed store: leave the counter alone and hand out
  no id, or hand out the counter as the id and advance it by one; keys come from the
  old store or are the id handed out.
\<close>

definition step_ok :: "MemStorage \<Rightarrow> MemStorage \<Rightarrow> int list \<Rightarrow> bool" where
  "step_ok st st' ids \<longleftrightarrow>
     store_inv st' \<and> fst ` set (tasks st') \<subseteq> fst ` set (tasks st) \<union> set ids \<and>
     (ids = [] \<and> nextTaskId st' = nextTaskId st \<or>
      ids = [nextTaskId st] \<and> nextTaskId st' = nextTaskId st + 1)"

section \<open>Example data\<close>

definition milk :: InsertTaskOwned where
  "milk = \<lparr>ins_title = ''Buy milk'', ins_description = None, ins_priority = Some High,
            ins_dueDate = None, ins_completed = None, ins_userId = 1\<rparr>"

definition milk_task :: Task where
  "milk_task = \<lparr>taskId = 1, title = ''Buy milk'', description = None, priority = High,
                 dueDate = None, completed = False, userId = 1, createdAt = 1000,
                 updatedAt = 1001\<rparr>"

definition milk_store :: MemStorage where
  "milk_store = \<lparr>tasks = [(1, milk_task)], nextTaskId = 2\<rparr>"

definition oat :: InsertTaskOwned where
  "oat = \<lparr>ins_title = ''Buy oats'', ins_description = Some ''rolled'', ins_priority = None,
           ins_dueDate = Some ''1970-01-01'', ins_completed = None, ins_userId = 1\<rparr>"

definition two_tasks :: MemStorage where
  "two_tasks = fst (run MemStorage_init [Op_create milk 1000 1001, Op_create oat 2000 2001])"

text \<open>A date parser that knows one date, the epoch.\<close>

definition epoch_only :: "string \<Rightarrow> int option" where
  "epoch_only s = (if s = ''1970-01-01'' then Some 0 else None)"

definition mark_done :: UpdateTask where
  "mark_done = \<lparr>upd_id = None, upd_title = None, upd_description = None, upd_priority = None,
                 upd_dueDate = None, upd_completed = Some True\<rparr>"

definition busy_day :: "storage_op list" where
  "busy_day = [Op_create milk 1000 1001, Op_create oat 2000 2001, Op_delete 1 1,
               Op_update 2 1 mark_done 2500, Op_create milk 3000 3001]"

text \<open>The optional members of a create payload, each absent or of its type.\<close>

definition optional_members_typed :: "(string \<times> json) list \<Rightarrow> bool" where
  "optional_members_typed kvs =
     ((case obj_get kvs ''description'' of None \<Rightarrow> True | Some (JStr _) \<Rightarrow> True | _ \<Rightarrow> False) \<and>
      (case obj_get kvs ''priority'' of None \<Rightarrow> True
         | Some (JStr p) \<Rightarrow> p = ''low'' \<or> p = ''medium'' \<or> p = ''high'' | _ \<Rightarrow> False) \<and>
      (case obj_get kvs ''dueDate'' of None \<Rightarrow> True | Some (JStr _) \<Rightarrow> True | _ \<Rightarrow> False) \<and>
      (case obj_get kvs ''completed'' of None \<Rightarrow> True | Some (JBool _) \<Rightarrow> True | _ \<Rightarrow> False))"

definition no_clock :: "nat \<Rightarrow> int" where
  "no_clock k = 1000 + int k"

definition milk_body :: json where
  "milk_body = JObj [(''title'', JStr ''Buy milk''), (''priority'', JStr ''high''),
                     (''userId'', JNum 2)]"

definition milk_parsed :: InsertTaskOwned where
  "milk_parsed = milk\<lparr>ins_completed := Some False\<rparr>"

definition no_title_body :: json where
  "no_title_body = JObj [(''title'', JStr []), (''priority'', JStr ''high'')]"

definition urgent_body :: json where
  "urgent_body = JObj [(''title'', JStr ''Buy milk''), (''priority'', JStr ''urgent'')]"

definition busy_requests :: "(request \<times> (nat \<Rightarrow> int)) list" where
  "busy_requests =
     [(\<lparr>session_userId = Some 1, route = CreateTaskR milk_body\<rparr>, no_clock),
      (\<lparr>session_userId = Some 1, route = DeleteTaskR ''1''\<rparr>, no_clock),
      (\<lparr>session_userId = Some 2, route = CreateTaskR milk_body\<rparr>, no_clock)]"

text \<open>Two creates, then an update of task 1 whose fields carry the id 2.\<close>

definition id_rewrite_day :: "storage_op list" where
  "id_rewrite_day = [Op_create milk 1000 1001, Op_create oat 2000 2001,
                     Op_update 1 1 (mark_done\<lparr>upd_id := Some 2\<rparr>) 2500]"

section \<open>Facts about the map\<close>

lemma Map_get_set: "Map_get (Map_set k v m) k' = (if k' = k then Some v else Map_get m k')"
  by (induction m) (auto simp: Map_get_def)

lemma Map_get_delete:
  "Map_get (snd (Map_delete k m)) k' = (if k' = k then None else Map_get m k')"
  by (induction m) (auto simp: Map_get_def Map_delete_def)

lemma Map_delete_fst: "fst (Map_delete k m) = (Map_get m k \<noteq> None)"
  by (simp add: Map_delete_def Map_get_def)

section \<open>Reading a task\<close>

lemma getTask_Some_iff:
  "getTask st i uid = Some t \<longleftrightarrow> Map_get (tasks st) i = Some t \<and> userId t = uid"
  by (auto simp: getTask_def split: option.splits)

lemma getTask_None_iff:
  "getTask st i uid = None \<longleftrightarrow>
     Map_get (tasks st) i = None \<or> (\<exists>t. Map_get (tasks st) i = Some t \<and> userId t \<noteq> uid)"
  by (auto simp: getTask_def split: option.splits)

lemma createTask_get:
  "createTask st d t1 t2 = (t, st') \<Longrightarrow> Map_get (tasks st') (taskId t) = Some t"
  by (auto simp: createTask_def Let_def Map_get_set)

lemma createTask_owner: "createTask st d t1 t2 = (t, st') \<Longrightarrow> userId t = ins_userId d"
  by (auto simp: createTask_def Let_def)

lemma createTask_milk: "createTask MemStorage_init milk 1000 1001 = (milk_task, milk_store)"
  by (simp add: createTask_def MemStorage_init_def milk_def milk_task_def milk_store_def
      or_null_def Let_def)

text \<open>
  C1. A task created for \<open>ownerId\<close> is returned by \<open>getTask\<close> to \<open>ownerId\<close> and to nobody
  else; in any store, \<open>getTask\<close> hands a stored task to its owner only, and it answers
  none both for an id that is not stored and for an id stored under another owner. The
  caller cannot tell the two apart: the result is the same value, and the get route
  answers both with the same 404 response.
\<close>

theorem getTask_owner_only:
  "(createTask st d t1 t2 = (t, st') \<longrightarrow>
      getTask st' (taskId t) (ins_userId d) = Some t \<and>
      (\<forall>otherId. otherId \<noteq> ins_userId d \<longrightarrow> getTask st' (taskId t) otherId = None)) \<and>
   (Map_get (tasks s) i = Some task \<longrightarrow>
      getTask s i (userId task) = Some task \<and>
      (\<forall>otherId. otherId \<noteq> userId task \<longrightarrow> getTask s i otherId = None)) \<and>
   (Map_get (tasks s) j = None \<longrightarrow> getTask s j uid = None) \<and>
   (getTask s j uid = None \<longleftrightarrow>
      Map_get (tasks s) j = None \<or> (\<exists>x. Map_get (tasks s) j = Some x \<and> userId x \<noteq> uid)) \<and>
   (parseInt idp = Some j \<and> getTask s j uid = None \<longrightarrow>
      get_task_route s uid idp =
        (\<lparr>status = 404, body = Message ''Task not found''\<rparr>, s, [Call_getTask j uid]))"
proof (intro conjI impI allI)
  assume c: "createTask st d t1 t2 = (t, st')"
  show "getTask st' (taskId t) (ins_userId d) = Some t"
    using createTask_get [OF c] createTask_owner [OF c] by (simp add: getTask_Some_iff)
  fix otherId assume "otherId \<noteq> ins_userId d"
  then show "getTask st' (taskId t) otherId = None"
    using createTask_get [OF c] createTask_owner [OF c] by (auto simp: getTask_None_iff)
next
  assume m: "Map_get (tasks s) i = Some task"
  show "getTask s i (userId task) = Some task"
    using m by (simp add: getTask_Some_iff)
  fix otherId assume "otherId \<noteq> userId task"
  then show "getTask s i otherId = None"
    using m by (auto simp: getTask_None_iff)
next
  assume "Map_get (tasks s) j = None"
  then show "getTask s j uid = None" by (simp add: getTask_None_iff)
next
  show "getTask s j uid = None \<longleftrightarrow>
      Map_get (tasks s) j = None \<or> (\<exists>x. Map_get (tasks s) j = Some x \<and> userId x \<noteq> uid)"
    by (rule getTask_None_iff)
next
  assume "parseInt idp = Some j \<and> getTask s j uid = None"
  then show "get_task_route s uid idp =
        (\<lparr>status = 404, body = Message ''Task not found''\<rparr>, s, [Call_getTask j uid])"
    by (simp add: get_task_route_def not_found_def)
qed

lemma parseInt_7: "parseInt ''7'' = Some 7"
  by (simp add: parseInt_def is_space_def is_digit_def digit_val_def digits_value_def
      to_double_def Let_def)

lemma parseInt_1: "parseInt ''1'' = Some 1"
  by (simp add: parseInt_def is_space_def is_digit_def digit_val_def digits_value_def
      to_double_def Let_def)

theorem getTask_owner_only_witness:
  "createTask MemStorage_init milk 1000 1001 = (milk_task, milk_store) \<and>
   getTask milk_store 1 1 = Some milk_task \<and>
   getTask milk_store 1 2 = None \<and>
   Map_get (tasks milk_store) 1 = Some milk_task \<and>
   Map_get (tasks milk_store) 7 = None \<and>
   getTask milk_store 7 1 = None \<and>
   parseInt ''7'' = Some 7 \<and>
   get_task_route milk_store 1 ''7'' =
     (\<lparr>status = 404, body = Message ''Task not found''\<rparr>, milk_store, [Call_getTask 7 1]) \<and>
   parseInt ''1'' = Some 1 \<and>
   get_task_route milk_store 2 ''1'' =
     (\<lparr>status = 404, body = Message ''Task not found''\<rparr>, milk_store, [Call_getTask 1 2])"
  using getTask_owner_only [where st = MemStorage_init and d = milk and ?t1.0 = 1000
      and ?t2.0 = 1001 and t = milk_task and st' = milk_store and s = milk_store and i = 1
      and task = milk_task and j = 7 and uid = 1 and idp = "''7''"]
    getTask_owner_only [where s = milk_store and j = 1 and uid = 2 and idp = "''1''"]
    createTask_milk parseInt_7 parseInt_1
  by (simp add: milk_def milk_task_def milk_store_def Map_get_def getTask_def)

section \<open>Deleting a task\<close>

lemma deleteTask_result: "fst (deleteTask st i uid) = (getTask st i uid \<noteq> None)"
  by (auto simp: deleteTask_def Map_delete_def getTask_def Map_get_def split: option.splits)

lemma deleteTask_tasks:
  "getTask st i uid \<noteq> None \<Longrightarrow>
     snd (deleteTask st i uid) = st\<lparr>tasks := snd (Map_delete i (tasks st))\<rparr>"
  by (auto simp: deleteTask_def split: option.splits prod.splits)

lemma deleteTask_unchanged: "getTask st i uid = None \<Longrightarrow> deleteTask st i uid = (False, st)"
  by (simp add: deleteTask_def)

text \<open>
  C8. \<open>deleteTask(id, userId)\<close> answers \<open>true\<close> exactly when the store held a task under
  \<open>id\<close> owned by \<open>userId\<close>; then that entry is gone, \<open>getTask(id, userId)\<close> finds nothing,
  and every other entry and the id counter are as before. Otherwise the answer is
  \<open>false\<close> and the store is unchanged.
\<close>

theorem deleteTask_effect:
  "deleteTask st i uid = (r, st') \<Longrightarrow>
     (r \<longleftrightarrow> (\<exists>t. Map_get (tasks st) i = Some t \<and> userId t = uid)) \<and>
     (r \<longrightarrow> Map_get (tasks st') i = None \<and> getTask st' i uid = None \<and>
            (\<forall>j. j \<noteq> i \<longrightarrow> Map_get (tasks st') j = Map_get (tasks st) j) \<and>
            nextTaskId st' = nextTaskId st) \<and>
     (\<not> r \<longrightarrow> st' = st)"
proof -
  assume d: "deleteTask st i uid = (r, st')"
  show ?thesis
  proof (cases "getTask st i uid")
    case None
    then have "r = False" "st' = st" using d by (simp_all add: deleteTask_unchanged)
    moreover have "\<not> (\<exists>t. Map_get (tasks st) i = Some t \<and> userId t = uid)"
      using None by (auto simp: getTask_None_iff)
    ultimately show ?thesis by simp
  next
    case (Some t)
    then have g: "getTask st i uid \<noteq> None" by simp
    have r: "r = True" using deleteTask_result [of st i uid] d g by simp
    have s: "st' = st\<lparr>tasks := snd (Map_delete i (tasks st))\<rparr>"
      using deleteTask_tasks [OF g] d by simp
    have m: "Map_get (tasks st') j = (if j = i then None else Map_get (tasks st) j)" for j
      by (simp add: s Map_get_delete)
    have "\<exists>t. Map_get (tasks st) i = Some t \<and> userId t = uid"
      using Some by (auto simp: getTask_Some_iff)
    moreover have "getTask st' i uid = None" using m [of i] by (simp add: getTask_None_iff)
    ultimately show ?thesis using r m s by simp
  qed
qed

lemma deleteTask_milk_owner:
  "deleteTask milk_store 1 1 = (True, \<lparr>tasks = [], nextTaskId = 2\<rparr>)"
  by (simp add: deleteTask_def getTask_def Map_get_def Map_delete_def milk_store_def
      milk_task_def)

lemma deleteTask_milk_other: "deleteTask milk_store 1 2 = (False, milk_store)"
  by (simp add: deleteTask_def getTask_def Map_get_def milk_store_def milk_task_def)

theorem deleteTask_effect_witness:
  "deleteTask milk_store 1 1 = (True, \<lparr>tasks = [], nextTaskId = 2\<rparr>) \<and>
   Map_get (tasks milk_store) 1 = Some milk_task \<and> userId milk_task = 1 \<and>
   getTask \<lparr>tasks = [], nextTaskId = 2\<rparr> 1 1 = None \<and>
   deleteTask milk_store 1 2 = (False, milk_store) \<and>
   deleteTask \<lparr>tasks = [], nextTaskId = 2\<rparr> 1 1 = (False, \<lparr>tasks = [], nextTaskId = 2\<rparr>)"
  using deleteTask_effect [OF deleteTask_milk_owner] deleteTask_effect [OF deleteTask_milk_other]
    deleteTask_milk_owner deleteTask_milk_other
  by (simp add: milk_store_def milk_task_def Map_get_def deleteTask_def getTask_def)

section \<open>Listing a user's tasks\<close>

lemma sort_insert_insort_key:
  "sort_insert (\<lambda>a b. f b - f a) x ys = insort_key (\<lambda>t. - f t) x ys"
  for f :: "'a \<Rightarrow> int"
  by (induction ys) auto

lemma Array_sort_sort_key:
  "Array_sort (\<lambda>a b. f b - f a) xs = sort_key (\<lambda>t. - f t) xs"
  for f :: "'a \<Rightarrow> int"
  by (induction xs) (simp_all add: Array_sort_def sort_insert_insort_key)

lemma getTasks_sort_key:
  "getTasks st uid =
     sort_key (\<lambda>t. - createdAt t) (filter (\<lambda>t. userId t = uid) (Map_values (tasks st)))"
  by (simp add: getTasks_def Array_sort_sort_key)

text \<open>The answer holds the user's tasks and nothing else, each as often as the store.\<close>

lemma getTasks_owned:
  "mset (getTasks st uid) = mset (filter (\<lambda>t. userId t = uid) (Map_values (tasks st)))"
  by (simp add: getTasks_sort_key)

text \<open>The order is by creation time, the latest first.\<close>

lemma getTasks_newest_first:
  "sorted_wrt (\<lambda>a b. createdAt b \<le> createdAt a) (getTasks st uid)"
proof -
  have "sorted (map (\<lambda>t. - createdAt t) (getTasks st uid))"
    by (simp add: getTasks_sort_key)
  then show ?thesis by (simp add: sorted_map)
qed

text \<open>Tasks created at the same time keep the order of the map.\<close>

lemma getTasks_stable:
  "filter (\<lambda>t. createdAt t = k) (getTasks st uid) =
     filter (\<lambda>t. createdAt t = k) (filter (\<lambda>t. userId t = uid) (Map_values (tasks st)))"
proof -
  have "filter (\<lambda>t. - createdAt t = - k) (getTasks st uid) =
        filter (\<lambda>t. - createdAt t = - k)
          (filter (\<lambda>t. userId t = uid) (Map_values (tasks st)))"
    unfolding getTasks_sort_key by (rule sort_key_stable)
  then show ?thesis by simp
qed

lemma two_tasks_eq:
  "two_tasks =
     \<lparr>tasks = [(1, milk_task),
        (2, \<lparr>taskId = 2, title = ''Buy oats'', description = Some ''rolled'',
             priority = Medium, dueDate = Some ''1970-01-01'', completed = False, userId = 1,
             createdAt = 2000, updatedAt = 2001\<rparr>)],
      nextTaskId = 3\<rparr>"
  by (simp add: two_tasks_def createTask_def MemStorage_init_def milk_def oat_def
      milk_task_def or_null_def Let_def)

text \<open>
  C3. \<open>getTasks(userId)\<close> of the in-memory store lists the later task first: with one
  task of user 1 created at time 1000 and a second at time 2000 the answer is the
  second, then the first, so the order is creation time descending, not ascending.
\<close>

theorem getTasks_order_example:
  "map taskId (getTasks two_tasks 1) = [2, 1] \<and>
   map createdAt (getTasks two_tasks 1) = [2000, 1000]"
  by (simp add: two_tasks_eq getTasks_def Array_sort_def Map_values_def milk_task_def)

section \<open>Statistics\<close>

lemma length_getTasks:
  "length (getTasks st uid) = length (filter (\<lambda>t. userId t = uid) (Map_values (tasks st)))"
  by (simp add: getTasks_sort_key)

lemma length_filter_getTasks:
  "length (filter P (getTasks st uid)) =
     length (filter P (filter (\<lambda>t. userId t = uid) (Map_values (tasks st))))"
proof -
  have "size (filter_mset P (mset (getTasks st uid))) =
        size (filter_mset P (mset (filter (\<lambda>t. userId t = uid) (Map_values (tasks st)))))"
    by (simp only: getTasks_owned)
  then show ?thesis by (simp only: mset_filter [symmetric] size_mset)
qed

lemma overdue_test_iff:
  "overdue_test parseDate now t \<longleftrightarrow>
     \<not> completed t \<and> (\<exists>d ms. dueDate t = Some d \<and> new_Date parseDate d = Some ms \<and> ms < now)"
  by (auto simp: overdue_test_def new_Date_def split: option.splits)

text \<open>
  C4. In every store and for every user, the four numbers of \<open>getTaskStats(userId)\<close>
  count the user's tasks: all of them, the completed ones, the ones not completed, and
  the ones not completed that have a due date whose parsed time is strictly before the
  time of the query. Hence pending + completed = total and overdue \<open>\<le>\<close> pending.
\<close>

theorem getTaskStats_counts:
  "stat_total (getTaskStats parseDate st uid now) =
     length (filter (\<lambda>t. userId t = uid) (Map_values (tasks st))) \<and>
   stat_completed (getTaskStats parseDate st uid now) =
     length (filter (\<lambda>t. userId t = uid \<and> completed t) (Map_values (tasks st))) \<and>
   stat_pending (getTaskStats parseDate st uid now) =
     length (filter (\<lambda>t. userId t = uid \<and> \<not> completed t) (Map_values (tasks st))) \<and>
   stat_overdue (getTaskStats parseDate st uid now) =
     length (filter (\<lambda>t. userId t = uid \<and> \<not> completed t \<and>
         (\<exists>d ms. dueDate t = Some d \<and> new_Date parseDate d = Some ms \<and> ms < now))
       (Map_values (tasks st))) \<and>
   stat_pending (getTaskStats parseDate st uid now) +
     stat_completed (getTaskStats parseDate st uid now) =
     stat_total (getTaskStats parseDate st uid now) \<and>
   stat_overdue (getTaskStats parseDate st uid now) \<le>
     stat_pending (getTaskStats parseDate st uid now)"
proof -
  let ?owned = "filter (\<lambda>t. userId t = uid) (Map_values (tasks st))"
  let ?s = "getTaskStats parseDate st uid now"
  have tot: "stat_total ?s = length ?owned"
    by (simp add: getTaskStats_def Let_def length_getTasks)
  have com: "stat_completed ?s = length (filter (\<lambda>t. completed t) ?owned)"
    by (simp add: getTaskStats_def Let_def length_filter_getTasks)
  have pen: "stat_pending ?s = length (filter (\<lambda>t. \<not> completed t) ?owned)"
    by (simp add: getTaskStats_def Let_def length_filter_getTasks)
  have ove: "stat_overdue ?s = length (filter (overdue_test parseDate now) ?owned)"
    by (simp add: getTaskStats_def Let_def length_filter_getTasks)
  have sum: "stat_pending ?s + stat_completed ?s = stat_total ?s"
    unfolding tot com pen using sum_length_filter_compl [of "\<lambda>t. completed t" ?owned] by simp
  have "length (filter (overdue_test parseDate now) ?owned) =
        length (filter (overdue_test parseDate now) (filter (\<lambda>t. \<not> completed t) ?owned))"
    by (simp add: overdue_test_def cong: conj_cong)
  then have le: "stat_overdue ?s \<le> stat_pending ?s"
    unfolding ove pen by (metis length_filter_le)
  show ?thesis
    using tot com pen ove sum le
    by (simp add: overdue_test_iff conj_commute cong: conj_cong)
qed

theorem getTaskStats_counts_witness:
  "getTaskStats epoch_only two_tasks 1 5 =
     \<lparr>stat_total = 2, stat_completed = 0, stat_pending = 2, stat_overdue = 1\<rparr> \<and>
   getTaskStats epoch_only two_tasks 1 0 =
     \<lparr>stat_total = 2, stat_completed = 0, stat_pending = 2, stat_overdue = 0\<rparr> \<and>
   getTaskStats epoch_only two_tasks 2 5 =
     \<lparr>stat_total = 0, stat_completed = 0, stat_pending = 0, stat_overdue = 0\<rparr>"
  using getTaskStats_counts [of epoch_only two_tasks 1 5]
  by (simp add: getTaskStats_def getTasks_def Array_sort_def Map_values_def two_tasks_eq
      milk_task_def overdue_test_def new_Date_def epoch_only_def Let_def)

section \<open>Updating a task\<close>

lemma updateTask_absent: "getTask st i uid = None \<Longrightarrow> updateTask st i uid u now = (None, st)"
  by (simp add: updateTask_def)

lemma updateTask_present:
  "getTask st i uid = Some t \<Longrightarrow>
     updateTask st i uid u now =
       (Some (spread_updates t u now),
        st\<lparr>tasks := Map_set i (spread_updates t u now) (tasks st)\<rparr>)"
  by (simp add: updateTask_def Let_def)

text \<open>
  C5, as amended. \<open>updateTask(id, userId, fields)\<close> answers none and changes nothing when
  the task is absent or owned by another user. For a task owned by \<open>userId\<close> it answers
  the task with every provided field set to the provided value and every omitted field
  as before, owner and creation time as before, and \<open>updatedAt\<close> set to the clock value
  of the update, which is later than the old \<open>updatedAt\<close> exactly when the clock has
  passed it; the task is stored under \<open>id\<close>, and no other entry changes.
\<close>

theorem updateTask_partial:
  "(getTask st i uid = None \<longrightarrow> updateTask st i uid u now = (None, st)) \<and>
   (getTask st i uid = Some t \<longrightarrow>
      (\<exists>t' st'. updateTask st i uid u now = (Some t', st') \<and>
         (case upd_title u of None \<Rightarrow> title t' = title t | Some x \<Rightarrow> title t' = x) \<and>
         (case upd_description u of None \<Rightarrow> description t' = description t
            | Some x \<Rightarrow> description t' = Some x) \<and>
         (case upd_priority u of None \<Rightarrow> priority t' = priority t | Some x \<Rightarrow> priority t' = x) \<and>
         (case upd_dueDate u of None \<Rightarrow> dueDate t' = dueDate t | Some x \<Rightarrow> dueDate t' = Some x) \<and>
         (case upd_completed u of None \<Rightarrow> completed t' = completed t
            | Some x \<Rightarrow> completed t' = x) \<and>
         (case upd_id u of None \<Rightarrow> taskId t' = taskId t | Some x \<Rightarrow> taskId t' = x) \<and>
         userId t' = userId t \<and> createdAt t' = createdAt t \<and>
         updatedAt t' = now \<and>
         (updatedAt t < updatedAt t' \<longleftrightarrow> updatedAt t < now) \<and>
         Map_get (tasks st') i = Some t' \<and>
         (\<forall>j. j \<noteq> i \<longrightarrow> Map_get (tasks st') j = Map_get (tasks st) j) \<and>
         nextTaskId st' = nextTaskId st))"
proof (intro conjI impI)
  assume "getTask st i uid = None"
  then show "updateTask st i uid u now = (None, st)" by (rule updateTask_absent)
next
  assume g: "getTask st i uid = Some t"
  let ?t = "spread_updates t u now"
  let ?st = "st\<lparr>tasks := Map_set i ?t (tasks st)\<rparr>"
  have "updateTask st i uid u now = (Some ?t, ?st)" by (rule updateTask_present [OF g])
  moreover have "case upd_title u of None \<Rightarrow> title ?t = title t | Some x \<Rightarrow> title ?t = x"
    by (simp add: spread_updates_def split: option.splits)
  moreover have "case upd_description u of None \<Rightarrow> description ?t = description t
            | Some x \<Rightarrow> description ?t = Some x"
    by (simp add: spread_updates_def split: option.splits)
  moreover have "case upd_priority u of None \<Rightarrow> priority ?t = priority t
            | Some x \<Rightarrow> priority ?t = x"
    by (simp add: spread_updates_def split: option.splits)
  moreover have "case upd_dueDate u of None \<Rightarrow> dueDate ?t = dueDate t
            | Some x \<Rightarrow> dueDate ?t = Some x"
    by (simp add: spread_updates_def split: option.splits)
  moreover have "case upd_completed u of None \<Rightarrow> completed ?t = completed t
            | Some x \<Rightarrow> completed ?t = x"
    by (simp add: spread_updates_def split: option.splits)
  moreover have "case upd_id u of None \<Rightarrow> taskId ?t = taskId t | Some x \<Rightarrow> taskId ?t = x"
    by (simp add: spread_updates_def split: option.splits)
  moreover have "userId ?t = userId t \<and> createdAt ?t = createdAt t \<and> updatedAt ?t = now"
    by (simp add: spread_updates_def)
  moreover have "updatedAt t < updatedAt ?t \<longleftrightarrow> updatedAt t < now"
    by (simp add: spread_updates_def)
  moreover have "Map_get (tasks ?st) i = Some ?t" by (simp add: Map_get_set)
  moreover have "\<forall>j. j \<noteq> i \<longrightarrow> Map_get (tasks ?st) j = Map_get (tasks st) j"
    by (simp add: Map_get_set)
  moreover have "nextTaskId ?st = nextTaskId st" by simp
  ultimately show "\<exists>t' st'. updateTask st i uid u now = (Some t', st') \<and>
         (case upd_title u of None \<Rightarrow> title t' = title t | Some x \<Rightarrow> title t' = x) \<and>
         (case upd_description u of None \<Rightarrow> description t' = description t
            | Some x \<Rightarrow> description t' = Some x) \<and>
         (case upd_priority u of None \<Rightarrow> priority t' = priority t | Some x \<Rightarrow> priority t' = x) \<and>
         (case upd_dueDate u of None \<Rightarrow> dueDate t' = dueDate t | Some x \<Rightarrow> dueDate t' = Some x) \<and>
         (case upd_completed u of None \<Rightarrow> completed t' = completed t
            | Some x \<Rightarrow> completed t' = x) \<and>
         (case upd_id u of None \<Rightarrow> taskId t' = taskId t | Some x \<Rightarrow> taskId t' = x) \<and>
         userId t' = userId t \<and> createdAt t' = createdAt t \<and>
         updatedAt t' = now \<and>
         (updatedAt t < updatedAt t' \<longleftrightarrow> updatedAt t < now) \<and>
         Map_get (tasks st') i = Some t' \<and>
         (\<forall>j. j \<noteq> i \<longrightarrow> Map_get (tasks st') j = Map_get (tasks st) j) \<and>
         nextTaskId st' = nextTaskId st"
    by blast
qed

lemma getTask_milk: "getTask milk_store 1 1 = Some milk_task"
  by (simp add: getTask_def Map_get_def milk_store_def milk_task_def)

lemma updateTask_milk_done:
  "updateTask milk_store 1 1 mark_done 1001 =
     (Some (milk_task\<lparr>completed := True\<rparr>),
      \<lparr>tasks = [(1, milk_task\<lparr>completed := True\<rparr>)], nextTaskId = 2\<rparr>)"
  by (simp add: updateTask_def getTask_def Map_get_def Let_def spread_updates_def
      mark_done_def milk_store_def milk_task_def)

theorem updateTask_partial_witness:
  "getTask milk_store 1 1 = Some milk_task \<and>
   updateTask milk_store 1 1 mark_done 5000 =
     (Some (milk_task\<lparr>completed := True, updatedAt := 5000\<rparr>),
      \<lparr>tasks = [(1, milk_task\<lparr>completed := True, updatedAt := 5000\<rparr>)], nextTaskId = 2\<rparr>) \<and>
   getTask milk_store 1 2 = None \<and>
   updateTask milk_store 1 2 mark_done 5000 = (None, milk_store)"
  using updateTask_partial [of milk_store 1 1 mark_done 5000 milk_task]
    updateTask_partial [of milk_store 1 2 mark_done 5000 milk_task]
  by (simp add: spread_updates_def mark_done_def milk_store_def milk_task_def getTask_def
        Map_get_def updateTask_def Let_def)

text \<open>
  C5 as stated fails: an update served while the clock still shows the value that the
  task's \<open>updatedAt\<close> holds leaves \<open>updatedAt\<close> at that value, not at a later one.
\<close>

theorem updateTask_same_millisecond:
  "getTask milk_store 1 1 = Some milk_task \<and>
   updatedAt milk_task = 1001 \<and>
   map_option updatedAt (fst (updateTask milk_store 1 1 mark_done 1001)) = Some 1001 \<and>
   \<not> (updatedAt milk_task < 1001)"
  by (simp add: getTask_milk updateTask_milk_done) (simp add: milk_task_def)

section \<open>Task ids\<close>

lemma Map_set_fresh: "k \<notin> fst ` set m \<Longrightarrow> Map_set k v m = m @ [(k, v)]"
  by (induction m) auto

lemma Map_set_keys: "k \<in> fst ` set m \<Longrightarrow> map fst (Map_set k v m) = map fst m"
  by (induction m) auto

lemma set_Map_set: "set (Map_set k v m) \<subseteq> insert (k, v) (set m)"
  by (induction m) auto

lemma Map_get_SomeD: "Map_get m k = Some v \<Longrightarrow> (k, v) \<in> set m"
  by (simp add: Map_get_def map_of_SomeD)

lemma store_inv_entry:
  "store_inv st \<Longrightarrow> (k, t) \<in> set (tasks st) \<Longrightarrow> taskId t = k \<and> k < nextTaskId st"
  by (auto simp: store_inv_def list_all_iff)

lemma store_inv_ids: "store_inv st \<Longrightarrow> map taskId (Map_values (tasks st)) = map fst (tasks st)"
  by (auto simp: store_inv_def list_all_iff Map_values_def)

lemma store_inv_init: "store_inv MemStorage_init"
  by (simp add: store_inv_def MemStorage_init_def)

lemma createTask_inv:
  assumes "store_inv st" and "createTask st d t1 t2 = (t, st')"
  shows "store_inv st' \<and> taskId t = nextTaskId st \<and> nextTaskId st' = nextTaskId st + 1 \<and>
         tasks st' = tasks st @ [(nextTaskId st, t)]"
proof -
  have fresh: "nextTaskId st \<notin> fst ` set (tasks st)"
    using assms(1) by (auto simp: store_inv_def list_all_iff)
  have id: "taskId t = nextTaskId st" and nx: "nextTaskId st' = nextTaskId st + 1"
    and ts: "tasks st' = Map_set (nextTaskId st) t (tasks st)"
    using assms(2) by (auto simp: createTask_def Let_def)
  have app: "tasks st' = tasks st @ [(nextTaskId st, t)]"
    using ts fresh by (simp add: Map_set_fresh)
  have "store_inv st'"
    using assms(1) fresh id by (auto simp: store_inv_def list_all_iff app nx)
  then show ?thesis using id nx app by simp
qed

lemma updateTask_inv:
  assumes "store_inv st" and "upd_id u = None"
  shows "store_inv (snd (updateTask st i uid u now)) \<and>
         nextTaskId (snd (updateTask st i uid u now)) = nextTaskId st \<and>
         map fst (tasks (snd (updateTask st i uid u now))) = map fst (tasks st)"
proof (cases "getTask st i uid")
  case None
  then show ?thesis using assms(1) by (simp add: updateTask_absent)
next
  case (Some t)
  let ?t = "spread_updates t u now"
  have mem: "(i, t) \<in> set (tasks st)"
    using Some by (auto simp: getTask_Some_iff dest: Map_get_SomeD)
  then have it: "taskId t = i" "i < nextTaskId st"
    using store_inv_entry [OF assms(1)] by auto
  have id: "taskId ?t = i" using it assms(2) by (simp add: spread_updates_def)
  have keys: "map fst (Map_set i ?t (tasks st)) = map fst (tasks st)"
    using mem by (intro Map_set_keys) force
  have "list_all (\<lambda>p. taskId (snd p) = fst p \<and> fst p < nextTaskId st) (Map_set i ?t (tasks st))"
    using set_Map_set [of i ?t "tasks st"] assms(1) id it
    by (auto simp: store_inv_def list_all_iff)
  then have "store_inv (st\<lparr>tasks := Map_set i ?t (tasks st)\<rparr>)"
    using assms(1) keys by (simp add: store_inv_def)
  then show ?thesis using keys by (simp add: updateTask_present [OF Some])
qed

lemma deleteTask_inv:
  assumes "store_inv st"
  shows "store_inv (snd (deleteTask st i uid)) \<and>
         nextTaskId (snd (deleteTask st i uid)) = nextTaskId st \<and>
         set (tasks (snd (deleteTask st i uid))) \<subseteq> set (tasks st)"
proof (cases "getTask st i uid")
  case None
  then show ?thesis using assms by (simp add: deleteTask_unchanged)
next
  case (Some t)
  then have "snd (deleteTask st i uid) = st\<lparr>tasks := filter (\<lambda>p. fst p \<noteq> i) (tasks st)\<rparr>"
    by (simp add: deleteTask_tasks Map_delete_def)
  then show ?thesis
    using assms by (auto simp: store_inv_def list_all_iff distinct_map_filter)
qed

lemma apply_op_inv:
  assumes "store_inv st" and "keeps_id op" and "apply_op st op = (st', r)"
  shows "store_inv st' \<and>
         fst ` set (tasks st') \<subseteq> fst ` set (tasks st) \<union> set_option r \<and>
         (case r of None \<Rightarrow> nextTaskId st' = nextTaskId st
          | Some i \<Rightarrow> i = nextTaskId st \<and> nextTaskId st' = i + 1)"
proof (cases op)
  case (Op_create d t1 t2)
  obtain t s where c: "createTask st d t1 t2 = (t, s)" by (cases "createTask st d t1 t2")
  then have "st' = s" "r = Some (taskId t)" using assms(3) Op_create by auto
  then show ?thesis using createTask_inv [OF assms(1) c] by auto
next
  case (Op_update i uid u now)
  then have "upd_id u = None" using assms(2) by simp
  from updateTask_inv [OF assms(1) this, of i uid now]
  show ?thesis using assms(3) Op_update by (auto simp flip: set_map)
next
  case (Op_delete i uid)
  then show ?thesis using deleteTask_inv [OF assms(1), of i uid] assms(3) by auto
qed

lemma run_inv:
  "store_inv st \<Longrightarrow> list_all keeps_id ops \<Longrightarrow> run st ops = (st', ids) \<Longrightarrow>
     store_inv st' \<and> sorted_wrt (<) ids \<and>
     (\<forall>i\<in>set ids. nextTaskId st \<le> i \<and> i < nextTaskId st') \<and>
     nextTaskId st \<le> nextTaskId st' \<and>
     fst ` set (tasks st') \<subseteq> fst ` set (tasks st) \<union> set ids"
proof (induction ops arbitrary: st st' ids)
  case Nil
  then show ?case by simp
next
  case (Cons op ops)
  obtain s1 r where a: "apply_op st op = (s1, r)" by (cases "apply_op st op")
  obtain s2 ids2 where r2: "run s1 ops = (s2, ids2)" by (cases "run s1 ops")
  have eq: "st' = s2" "ids = (case r of None \<Rightarrow> [] | Some i \<Rightarrow> [i]) @ ids2"
    using Cons.prems(3) a r2 by auto
  have k: "keeps_id op" "list_all keeps_id ops" using Cons.prems(2) by auto
  note A = apply_op_inv [OF Cons.prems(1) k(1) a]
  have inv1: "store_inv s1" using A by simp
  note IH = Cons.IH [OF inv1 k(2) r2]
  have keys: "fst ` set (tasks s2) \<subseteq> fst ` set (tasks st) \<union> set_option r \<union> set ids2"
    using A IH by blast
  show ?case
  proof (cases r)
    case None
    then have "nextTaskId s1 = nextTaskId st" using A by simp
    then show ?thesis using IH eq None keys by simp
  next
    case (Some i)
    then have i: "i = nextTaskId st" "nextTaskId s1 = i + 1" using A by auto
    have "sorted_wrt (<) (i # ids2)" using IH i by auto
    moreover have "\<forall>j\<in>set (i # ids2). nextTaskId st \<le> j \<and> j < nextTaskId s2"
      using IH i by auto
    moreover have "nextTaskId st \<le> nextTaskId s2" using IH i by simp
    moreover have "fst ` set (tasks s2) \<subseteq> fst ` set (tasks st) \<union> set (i # ids2)"
      using keys Some by auto
    ultimately show ?thesis using IH eq Some by simp
  qed
qed

section \<open>The authorization gate\<close>

text \<open>
  C2. A request to a task route whose session carries no \<open>userId\<close> is answered 401
  \<open>Unauthorized\<close> by \<open>requireAuth\<close>: no call is made on the store, and the store is
  as before.
\<close>

theorem unauthenticated_rejected:
  "session_userId req = None \<Longrightarrow>
     handle parseDate clock st req =
       (\<lparr>status = 401, body = Message ''Unauthorized''\<rparr>, st, [])"
  by (simp add: handle_def requireAuth_def)

theorem unauthenticated_rejected_witness:
  "session_userId \<lparr>session_userId = None, route = DeleteTaskR ''1''\<rparr> = None \<and>
   handle epoch_only no_clock milk_store \<lparr>session_userId = None, route = DeleteTaskR ''1''\<rparr> =
     (\<lparr>status = 401, body = Message ''Unauthorized''\<rparr>, milk_store, []) \<and>
   handle epoch_only no_clock milk_store \<lparr>session_userId = None, route = CreateTaskR milk_body\<rparr> =
     (\<lparr>status = 401, body = Message ''Unauthorized''\<rparr>, milk_store, [])"
  using unauthenticated_rejected [of "\<lparr>session_userId = None, route = DeleteTaskR ''1''\<rparr>"
      epoch_only no_clock milk_store]
    unauthenticated_rejected [of "\<lparr>session_userId = None, route = CreateTaskR milk_body\<rparr>"
      epoch_only no_clock milk_store]
  by simp

section \<open>Creating a task over HTTP\<close>

lemma requireAuth_route [simp]: "requireAuth (req\<lparr>route := r\<rparr>) = requireAuth req"
  by (simp add: requireAuth_def)

lemma handle_create:
  "requireAuth req = Some uid \<Longrightarrow> route req = CreateTaskR data \<Longrightarrow>
     handle parseDate clock st req = create_task_route clock st uid data"
  by (simp add: handle_def)

lemma create_route_cases:
  "create_task_route clock st uid data = (resp, st', calls) \<Longrightarrow>
     (\<exists>e. insertTaskSchema_parse data = Inl e \<and> resp = \<lparr>status = 400, body = ValidationFailed e\<rparr> \<and>
          st' = st \<and> calls = []) \<or>
     (\<exists>v t. insertTaskSchema_parse data = Inr v \<and>
          createTask st (InsertTask.extend v (InsertTaskOwned.fields uid)) (clock 0) (clock 1) = (t, st') \<and>
          resp = \<lparr>status = 201, body = TaskBody t\<rparr> \<and>
          calls = [Call_createTask (InsertTask.extend v (InsertTaskOwned.fields uid))])"
  by (auto simp: create_task_route_def Let_def split: sum.splits prod.splits)

lemma ins_userId_extend [simp]: "ins_userId (InsertTask.extend v (InsertTaskOwned.fields uid)) = uid"
  by (simp add: InsertTask.extend_def InsertTaskOwned.fields_def)

text \<open>
  The schema reads five members of the payload; two payloads that agree on every member
  but \<open>userId\<close> parse alike.
\<close>

lemma insert_parse_cong:
  assumes "\<And>k. k \<noteq> ''userId'' \<Longrightarrow> obj_get kvs k = obj_get kvs' k"
  shows "insertTaskSchema_parse (JObj kvs) = insertTaskSchema_parse (JObj kvs')"
proof -
  have "obj_get kvs ''title'' = obj_get kvs' ''title''"
    "obj_get kvs ''description'' = obj_get kvs' ''description''"
    "obj_get kvs ''priority'' = obj_get kvs' ''priority''"
    "obj_get kvs ''dueDate'' = obj_get kvs' ''dueDate''"
    "obj_get kvs ''completed'' = obj_get kvs' ''completed''"
    by (simp_all add: assms)
  then show ?thesis by (simp add: insertTaskSchema_parse_def)
qed

lemma handle_milk_body:
  "handle epoch_only no_clock MemStorage_init \<lparr>session_userId = Some 1, route = CreateTaskR milk_body\<rparr> =
     (\<lparr>status = 201, body = TaskBody milk_task\<rparr>, milk_store, [Call_createTask milk_parsed])"
  by (simp add: handle_def requireAuth_def create_task_route_def insertTaskSchema_parse_def
      milk_body_def obj_get_def zod_title_def zod_string_optional_def zod_priority_def
      priority_of_def zod_completed_def createTask_def MemStorage_init_def or_null_def
      no_clock_def milk_task_def milk_store_def milk_def milk_parsed_def Let_def
      InsertTask.extend_def InsertTaskOwned.fields_def)

text \<open>
  C6. The owner of a task created through the create route is the \<open>userId\<close> of the
  caller's session: the created task carries it, the store is called with it, only that
  user can read the task back, and a payload that differs in nothing but a \<open>userId\<close>
  member gets the same response and leaves the same store.
\<close>

theorem create_owner_from_session:
  assumes "requireAuth req = Some uid" and "route req = CreateTaskR data"
    and "handle parseDate clock st req = (resp, st', calls)"
  shows "(status resp = 201 \<longrightarrow>
            (\<exists>t d. body resp = TaskBody t \<and> userId t = uid \<and>
               getTask st' (taskId t) uid = Some t \<and>
               (\<forall>otherId. otherId \<noteq> uid \<longrightarrow> getTask st' (taskId t) otherId = None) \<and>
               calls = [Call_createTask d] \<and> ins_userId d = uid)) \<and>
         (status resp \<noteq> 201 \<longrightarrow> st' = st \<and> calls = []) \<and>
         (\<forall>kvs kvs'. data = JObj kvs \<longrightarrow>
            (\<forall>k. k \<noteq> ''userId'' \<longrightarrow> obj_get kvs' k = obj_get kvs k) \<longrightarrow>
            handle parseDate clock st (req\<lparr>route := CreateTaskR (JObj kvs')\<rparr>) =
              (resp, st', calls))"
proof (intro conjI impI allI)
  have c: "create_task_route clock st uid data = (resp, st', calls)"
    using assms by (simp add: handle_create)
  note cases = create_route_cases [OF c]
  {
    assume "status resp = 201"
    then obtain v t where v: "insertTaskSchema_parse data = Inr v"
      and ct: "createTask st (InsertTask.extend v (InsertTaskOwned.fields uid)) (clock 0) (clock 1)
                 = (t, st')"
      and r: "resp = \<lparr>status = 201, body = TaskBody t\<rparr>"
      and cl: "calls = [Call_createTask (InsertTask.extend v (InsertTaskOwned.fields uid))]"
      using cases by auto
    have o: "userId t = uid" using createTask_owner [OF ct] by simp
    have g: "Map_get (tasks st') (taskId t) = Some t" by (rule createTask_get [OF ct])
    have "getTask st' (taskId t) uid = Some t" using o g by (simp add: getTask_Some_iff)
    moreover have "\<forall>otherId. otherId \<noteq> uid \<longrightarrow> getTask st' (taskId t) otherId = None"
      using o g by (auto simp: getTask_None_iff)
    ultimately show "\<exists>t d. body resp = TaskBody t \<and> userId t = uid \<and>
               getTask st' (taskId t) uid = Some t \<and>
               (\<forall>otherId. otherId \<noteq> uid \<longrightarrow> getTask st' (taskId t) otherId = None) \<and>
               calls = [Call_createTask d] \<and> ins_userId d = uid"
      using r cl o by auto
  }
  {
    assume "status resp \<noteq> 201"
    then show "st' = st" and "calls = []" using cases by auto
  }
  {
    fix kvs kvs'
    assume d: "data = JObj kvs"
      and same: "\<forall>k. k \<noteq> ''userId'' \<longrightarrow> obj_get kvs' k = obj_get kvs k"
    have "insertTaskSchema_parse (JObj kvs') = insertTaskSchema_parse (JObj kvs)"
      using same by (intro insert_parse_cong) simp
    then have "create_task_route clock st uid (JObj kvs') = create_task_route clock st uid data"
      by (simp add: create_task_route_def d)
    then show "handle parseDate clock st (req\<lparr>route := CreateTaskR (JObj kvs')\<rparr>) =
              (resp, st', calls)"
      using c assms(1) by (simp add: handle_def)
  }
qed

theorem create_owner_from_session_witness:
  "requireAuth \<lparr>session_userId = Some 1, route = CreateTaskR milk_body\<rparr> = Some 1 \<and>
   handle epoch_only no_clock MemStorage_init
       \<lparr>session_userId = Some 1, route = CreateTaskR milk_body\<rparr> =
     (\<lparr>status = 201, body = TaskBody milk_task\<rparr>, milk_store, [Call_createTask milk_parsed]) \<and>
   obj_get [(''title'', JStr ''Buy milk''), (''priority'', JStr ''high''), (''userId'', JNum 2)]
     ''userId'' = Some (JNum 2) \<and>
   userId milk_task = 1 \<and>
   getTask milk_store 1 1 = Some milk_task \<and> getTask milk_store 1 2 = None \<and>
   handle epoch_only no_clock MemStorage_init
       \<lparr>session_userId = Some 1,
        route = CreateTaskR (JObj [(''title'', JStr ''Buy milk''), (''priority'', JStr ''high'')])\<rparr> =
     (\<lparr>status = 201, body = TaskBody milk_task\<rparr>, milk_store, [Call_createTask milk_parsed])"
proof -
  let ?req = "\<lparr>session_userId = Some 1, route = CreateTaskR milk_body\<rparr>"
  have a: "requireAuth ?req = Some 1" by (simp add: requireAuth_def)
  have r: "route ?req = CreateTaskR milk_body" by simp
  note T = create_owner_from_session [OF a r handle_milk_body]
  have same: "\<forall>k. k \<noteq> ''userId'' \<longrightarrow>
      obj_get [(''title'', JStr ''Buy milk''), (''priority'', JStr ''high'')] k =
      obj_get [(''title'', JStr ''Buy milk''), (''priority'', JStr ''high''), (''userId'', JNum 2)] k"
    by (simp add: obj_get_def)
  have "handle epoch_only no_clock MemStorage_init
       (?req\<lparr>route := CreateTaskR (JObj [(''title'', JStr ''Buy milk''), (''priority'', JStr ''high'')])\<rparr>) =
     (\<lparr>status = 201, body = TaskBody milk_task\<rparr>, milk_store, [Call_createTask milk_parsed])"
    using T same by (simp add: milk_body_def)
  then show ?thesis
    using a handle_milk_body T
    by (simp add: obj_get_def milk_task_def milk_store_def getTask_def Map_get_def)
qed

lemma optional_members_typed_iff:
  "optional_members_typed kvs \<longleftrightarrow>
     zod_string_optional (obj_get kvs ''description'') \<noteq> None \<and>
     zod_priority (obj_get kvs ''priority'') \<noteq> None \<and>
     zod_string_optional (obj_get kvs ''dueDate'') \<noteq> None \<and>
     zod_completed (obj_get kvs ''completed'') \<noteq> None"
proof -
  have s: "zod_string_optional v \<noteq> None \<longleftrightarrow>
           (case v of None \<Rightarrow> True | Some (JStr _) \<Rightarrow> True | _ \<Rightarrow> False)" for v
    by (auto simp: zod_string_optional_def split: option.splits json.splits)
  have p: "zod_priority v \<noteq> None \<longleftrightarrow>
           (case v of None \<Rightarrow> True
            | Some (JStr p) \<Rightarrow> p = ''low'' \<or> p = ''medium'' \<or> p = ''high'' | _ \<Rightarrow> False)" for v
    by (auto simp: zod_priority_def priority_of_def split: option.splits json.splits)
  have c: "zod_completed v \<noteq> None \<longleftrightarrow>
           (case v of None \<Rightarrow> True | Some (JBool _) \<Rightarrow> True | _ \<Rightarrow> False)" for v
    by (auto simp: zod_completed_def split: option.splits json.splits)
  show ?thesis unfolding optional_members_typed_def s p c ..
qed

lemma insert_parse_issue:
  assumes "zod_title (obj_get kvs ''title'') = None \<or>
           zod_string_optional (obj_get kvs ''description'') = None \<or>
           zod_priority (obj_get kvs ''priority'') = None \<or>
           zod_string_optional (obj_get kvs ''dueDate'') = None \<or>
           zod_completed (obj_get kvs ''completed'') = None"
  shows "\<exists>e. insertTaskSchema_parse (JObj kvs) = Inl e"
proof -
  obtain t d p u c where r: "zod_title (obj_get kvs ''title'') = t"
    "zod_string_optional (obj_get kvs ''description'') = d"
    "zod_priority (obj_get kvs ''priority'') = p"
    "zod_string_optional (obj_get kvs ''dueDate'') = u"
    "zod_completed (obj_get kvs ''completed'') = c" by blast
  have "t = None \<or> d = None \<or> p = None \<or> u = None \<or> c = None" using assms r by simp
  then have "\<exists>e. (case (t, d, p, u, c) of
                 (Some t', Some d', Some p', Some u', Some c') \<Rightarrow>
                   Inr \<lparr>ins_title = t', ins_description = d', ins_priority = Some p',
                        ins_dueDate = u', ins_completed = Some c'\<rparr>
               | _ \<Rightarrow>
                   Inl (ZodError (issue ''title'' t @ issue ''description'' d @
                     issue ''priority'' p @ issue ''dueDate'' u @ issue ''completed'' c))) = Inl e"
    by (cases t; cases d; cases p; cases u; cases c) simp_all
  then show ?thesis by (simp add: insertTaskSchema_parse_def r)
qed

lemma insert_parse_invalid:
  assumes "\<not> (\<exists>kvs s. data = JObj kvs \<and> obj_get kvs ''title'' = Some (JStr s) \<and>
              1 \<le> length s \<and> length s \<le> 200 \<and> optional_members_typed kvs)"
  shows "\<exists>e. insertTaskSchema_parse data = Inl e"
proof (cases data)
  case (JObj kvs)
  have "zod_title (obj_get kvs ''title'') = None \<or> \<not> optional_members_typed kvs"
  proof (cases "zod_title (obj_get kvs ''title'')")
    case (Some s)
    then have "obj_get kvs ''title'' = Some (JStr s) \<and> 1 \<le> length s \<and> length s \<le> 200"
      by (auto simp: zod_title_def split: option.splits json.splits if_splits)
    then show ?thesis using assms JObj by blast
  qed simp
  then show ?thesis
    unfolding JObj optional_members_typed_iff by (intro insert_parse_issue) blast
qed (simp_all add: insertTaskSchema_parse_def)

lemma insert_parse_typed:
  assumes "obj_get kvs ''title'' = Some (JStr s)" and "1 \<le> length s" and "length s \<le> 200"
    and "optional_members_typed kvs"
  shows "\<exists>v. insertTaskSchema_parse (JObj kvs) = Inr v \<and> ins_title v = s \<and>
           (obj_get kvs ''description'' = None \<longrightarrow> ins_description v = None) \<and>
           (\<forall>d. obj_get kvs ''description'' = Some (JStr d) \<longrightarrow> ins_description v = Some d) \<and>
           (obj_get kvs ''priority'' = None \<longrightarrow> ins_priority v = Some Medium) \<and>
           (\<forall>p. obj_get kvs ''priority'' = Some (JStr p) \<longrightarrow> ins_priority v = priority_of p \<and> priority_of p \<noteq> None) \<and>
           (obj_get kvs ''dueDate'' = None \<longrightarrow> ins_dueDate v = None) \<and>
           (\<forall>d. obj_get kvs ''dueDate'' = Some (JStr d) \<longrightarrow> ins_dueDate v = Some d) \<and>
           (obj_get kvs ''completed'' = None \<longrightarrow> ins_completed v = Some False) \<and>
           (\<forall>b. obj_get kvs ''completed'' = Some (JBool b) \<longrightarrow> ins_completed v = Some b)"
proof -
  have t: "zod_title (obj_get kvs ''title'') = Some s"
    using assms(1-3) by (simp add: zod_title_def)
  obtain d where d: "zod_string_optional (obj_get kvs ''description'') = Some d"
    and d1: "obj_get kvs ''description'' = None \<longrightarrow> d = None"
    and d2: "\<forall>x. obj_get kvs ''description'' = Some (JStr x) \<longrightarrow> d = Some x"
    using assms(4)
    by (auto simp: optional_members_typed_def zod_string_optional_def split: option.splits json.splits)
  obtain u where u: "zod_string_optional (obj_get kvs ''dueDate'') = Some u"
    and u1: "obj_get kvs ''dueDate'' = None \<longrightarrow> u = None"
    and u2: "\<forall>x. obj_get kvs ''dueDate'' = Some (JStr x) \<longrightarrow> u = Some x"
    using assms(4)
    by (auto simp: optional_members_typed_def zod_string_optional_def split: option.splits json.splits)
  obtain p where p: "zod_priority (obj_get kvs ''priority'') = Some p"
    and p1: "obj_get kvs ''priority'' = None \<longrightarrow> p = Medium"
    and p2: "\<forall>x. obj_get kvs ''priority'' = Some (JStr x) \<longrightarrow> priority_of x = Some p"
    using assms(4)
    by (auto simp: optional_members_typed_def zod_priority_def priority_of_def
        split: option.splits json.splits)
  obtain c where c: "zod_completed (obj_get kvs ''completed'') = Some c"
    and c1: "obj_get kvs ''completed'' = None \<longrightarrow> c = False"
    and c2: "\<forall>b. obj_get kvs ''completed'' = Some (JBool b) \<longrightarrow> c = b"
    using assms(4)
    by (auto simp: optional_members_typed_def zod_completed_def split: option.splits json.splits)
  have "insertTaskSchema_parse (JObj kvs) =
          Inr \<lparr>ins_title = s, ins_description = d, ins_priority = Some p, ins_dueDate = u,
               ins_completed = Some c\<rparr>"
    by (simp add: insertTaskSchema_parse_def t d u p c)
  then show ?thesis using d1 d2 u1 u2 p1 p2 c1 c2 by simp
qed

lemma createTask_fields:
  "createTask st d t1 t2 = (t, st') \<Longrightarrow>
     taskId t = nextTaskId st \<and> title t = ins_title d \<and> userId t = ins_userId d \<and>
     createdAt t = t1 \<and> updatedAt t = t2 \<and>
     priority t = (case ins_priority d of None \<Rightarrow> Medium | Some p \<Rightarrow> p) \<and>
     completed t = (case ins_completed d of None \<Rightarrow> False | Some c \<Rightarrow> c) \<and>
     description t = or_null (ins_description d) \<and> dueDate t = or_null (ins_dueDate d) \<and>
     (\<forall>j. j \<noteq> taskId t \<longrightarrow> Map_get (tasks st') j = Map_get (tasks st) j)"
  by (auto simp: createTask_def Let_def Map_get_set)

lemma handle_no_title_body:
  "handle epoch_only no_clock milk_store \<lparr>session_userId = Some 1, route = CreateTaskR no_title_body\<rparr> =
     (\<lparr>status = 400, body = ValidationFailed (ZodError [''title''])\<rparr>, milk_store, [])"
  by (simp add: handle_def requireAuth_def create_task_route_def insertTaskSchema_parse_def
      no_title_body_def obj_get_def zod_title_def zod_string_optional_def zod_priority_def
      priority_of_def zod_completed_def issue_def Let_def)

text \<open>
  C7, as amended. A create request is answered 400 with the validation error, and
  nothing is created (no call on the store, the store as before), when its payload has
  no title of 1 to 200 characters, and also when an optional member is present with a
  value outside its type. Every other create request is answered 201 with a task that
  has the given title, the session's owner, the next id, priority \<open>medium\<close> unless one
  is given, \<open>completed\<close> false unless given, and \<open>createdAt\<close> and \<open>updatedAt\<close> read from
  the clock during the request; the task is in the store and no other entry has changed.
\<close>

theorem create_validates_payload:
  assumes "requireAuth req = Some uid" and "route req = CreateTaskR data"
  shows "(\<not> (\<exists>kvs s. data = JObj kvs \<and> obj_get kvs ''title'' = Some (JStr s) \<and>
                1 \<le> length s \<and> length s \<le> 200 \<and> optional_members_typed kvs) \<longrightarrow>
            (\<exists>e. handle parseDate clock st req =
                    (\<lparr>status = 400, body = ValidationFailed e\<rparr>, st, []))) \<and>
         (\<forall>kvs s. data = JObj kvs \<and> obj_get kvs ''title'' = Some (JStr s) \<and>
              1 \<le> length s \<and> length s \<le> 200 \<and> optional_members_typed kvs \<longrightarrow>
            (\<exists>t st' d. handle parseDate clock st req =
                    (\<lparr>status = 201, body = TaskBody t\<rparr>, st', [Call_createTask d]) \<and>
               title t = s \<and> userId t = uid \<and> taskId t = nextTaskId st \<and>
               createdAt t = clock 0 \<and> updatedAt t = clock 1 \<and>
               (obj_get kvs ''priority'' = None \<longrightarrow> priority t = Medium) \<and>
               (\<forall>p. obj_get kvs ''priority'' = Some (JStr p) \<longrightarrow> priority_of p = Some (priority t)) \<and>
               (obj_get kvs ''completed'' = None \<longrightarrow> \<not> completed t) \<and>
               (\<forall>b. obj_get kvs ''completed'' = Some (JBool b) \<longrightarrow> completed t = b) \<and>
               getTask st' (taskId t) uid = Some t \<and>
               (\<forall>j. j \<noteq> taskId t \<longrightarrow> Map_get (tasks st') j = Map_get (tasks st) j)))"
proof (intro conjI impI allI)
  assume "\<not> (\<exists>kvs s. data = JObj kvs \<and> obj_get kvs ''title'' = Some (JStr s) \<and>
                1 \<le> length s \<and> length s \<le> 200 \<and> optional_members_typed kvs)"
  then obtain e where "insertTaskSchema_parse data = Inl e"
    using insert_parse_invalid by blast
  then have "handle parseDate clock st req = (\<lparr>status = 400, body = ValidationFailed e\<rparr>, st, [])"
    by (simp add: handle_create [OF assms] create_task_route_def)
  then show "\<exists>e. handle parseDate clock st req =
                    (\<lparr>status = 400, body = ValidationFailed e\<rparr>, st, [])" ..
next
  fix kvs s
  assume a: "data = JObj kvs \<and> obj_get kvs ''title'' = Some (JStr s) \<and>
              1 \<le> length s \<and> length s \<le> 200 \<and> optional_members_typed kvs"
  then have a1: "data = JObj kvs" and a2: "obj_get kvs ''title'' = Some (JStr s)"
    and a3: "1 \<le> length s" and a4: "length s \<le> 200" and a5: "optional_members_typed kvs"
    by simp_all
  obtain v where v: "insertTaskSchema_parse (JObj kvs) = Inr v" and vt: "ins_title v = s"
    and vp1: "obj_get kvs ''priority'' = None \<longrightarrow> ins_priority v = Some Medium"
    and vp2: "\<forall>p. obj_get kvs ''priority'' = Some (JStr p) \<longrightarrow>
                ins_priority v = priority_of p \<and> priority_of p \<noteq> None"
    and vc1: "obj_get kvs ''completed'' = None \<longrightarrow> ins_completed v = Some False"
    and vc2: "\<forall>b. obj_get kvs ''completed'' = Some (JBool b) \<longrightarrow> ins_completed v = Some b"
    using insert_parse_typed [OF a2 a3 a4 a5] by (elim exE conjE) (rule that)
  let ?d = "InsertTask.extend v (InsertTaskOwned.fields uid)"
  obtain t st' where c: "createTask st ?d (clock 0) (clock 1) = (t, st')"
    by (cases "createTask st ?d (clock 0) (clock 1)")
  have h: "handle parseDate clock st req =
             (\<lparr>status = 201, body = TaskBody t\<rparr>, st', [Call_createTask ?d])"
    using a1 v c by (simp add: handle_create [OF assms] create_task_route_def)
  have d: "ins_title ?d = s" "ins_userId ?d = uid" "ins_priority ?d = ins_priority v"
    "ins_completed ?d = ins_completed v"
    using vt by (simp_all add: InsertTask.extend_def InsertTaskOwned.fields_def)
  note F = createTask_fields [OF c]
  have o: "userId t = uid" using F d by simp
  have "getTask st' (taskId t) uid = Some t"
    using createTask_get [OF c] o by (simp add: getTask_Some_iff)
  moreover have "obj_get kvs ''priority'' = None \<longrightarrow> priority t = Medium"
    using F d vp1 by simp
  moreover have "\<forall>p. obj_get kvs ''priority'' = Some (JStr p) \<longrightarrow> priority_of p = Some (priority t)"
    using F d vp2 by auto
  moreover have "obj_get kvs ''completed'' = None \<longrightarrow> \<not> completed t"
    using F d vc1 by simp
  moreover have "\<forall>b. obj_get kvs ''completed'' = Some (JBool b) \<longrightarrow> completed t = b"
    using F d vc2 by simp
  moreover have "title t = s \<and> taskId t = nextTaskId st \<and> createdAt t = clock 0 \<and>
      updatedAt t = clock 1"
    using F d by simp
  moreover have "\<forall>j. j \<noteq> taskId t \<longrightarrow> Map_get (tasks st') j = Map_get (tasks st) j"
    using F by simp
  ultimately have "handle parseDate clock st req =
                    (\<lparr>status = 201, body = TaskBody t\<rparr>, st', [Call_createTask ?d]) \<and>
               title t = s \<and> userId t = uid \<and> taskId t = nextTaskId st \<and>
               createdAt t = clock 0 \<and> updatedAt t = clock 1 \<and>
               (obj_get kvs ''priority'' = None \<longrightarrow> priority t = Medium) \<and>
               (\<forall>p. obj_get kvs ''priority'' = Some (JStr p) \<longrightarrow> priority_of p = Some (priority t)) \<and>
               (obj_get kvs ''completed'' = None \<longrightarrow> \<not> completed t) \<and>
               (\<forall>b. obj_get kvs ''completed'' = Some (JBool b) \<longrightarrow> completed t = b) \<and>
               getTask st' (taskId t) uid = Some t \<and>
               (\<forall>j. j \<noteq> taskId t \<longrightarrow> Map_get (tasks st') j = Map_get (tasks st) j)"
    using h o by simp
  then show "\<exists>t st' d. handle parseDate clock st req =
                    (\<lparr>status = 201, body = TaskBody t\<rparr>, st', [Call_createTask d]) \<and>
               title t = s \<and> userId t = uid \<and> taskId t = nextTaskId st \<and>
               createdAt t = clock 0 \<and> updatedAt t = clock 1 \<and>
               (obj_get kvs ''priority'' = None \<longrightarrow> priority t = Medium) \<and>
               (\<forall>p. obj_get kvs ''priority'' = Some (JStr p) \<longrightarrow> priority_of p = Some (priority t)) \<and>
               (obj_get kvs ''completed'' = None \<longrightarrow> \<not> completed t) \<and>
               (\<forall>b. obj_get kvs ''completed'' = Some (JBool b) \<longrightarrow> completed t = b) \<and>
               getTask st' (taskId t) uid = Some t \<and>
               (\<forall>j. j \<noteq> taskId t \<longrightarrow> Map_get (tasks st') j = Map_get (tasks st) j)"
    by - (rule exI [of _ t], rule exI [of _ st'], rule exI [of _ ?d], assumption)
qed

theorem create_validates_payload_witness:
  "requireAuth \<lparr>session_userId = Some 1, route = CreateTaskR milk_body\<rparr> = Some 1 \<and>
   obj_get [(''title'', JStr ''Buy milk''), (''priority'', JStr ''high''), (''userId'', JNum 2)]
     ''title'' = Some (JStr ''Buy milk'') \<and>
   1 \<le> length ''Buy milk'' \<and> length ''Buy milk'' \<le> 200 \<and>
   optional_members_typed
     [(''title'', JStr ''Buy milk''), (''priority'', JStr ''high''), (''userId'', JNum 2)] \<and>
   handle epoch_only no_clock MemStorage_init
       \<lparr>session_userId = Some 1, route = CreateTaskR milk_body\<rparr> =
     (\<lparr>status = 201, body = TaskBody milk_task\<rparr>, milk_store, [Call_createTask milk_parsed]) \<and>
   obj_get [(''title'', JStr []), (''priority'', JStr ''high'')] ''title'' = Some (JStr []) \<and>
   handle epoch_only no_clock milk_store
       \<lparr>session_userId = Some 1, route = CreateTaskR no_title_body\<rparr> =
     (\<lparr>status = 400, body = ValidationFailed (ZodError [''title''])\<rparr>, milk_store, [])"
proof -
  let ?r1 = "\<lparr>session_userId = Some 1, route = CreateTaskR milk_body\<rparr>"
  let ?r2 = "\<lparr>session_userId = Some 1, route = CreateTaskR no_title_body\<rparr>"
  have a1: "requireAuth ?r1 = Some 1" and a2: "requireAuth ?r2 = Some 1"
    by (simp_all add: requireAuth_def)
  have typed: "optional_members_typed
     [(''title'', JStr ''Buy milk''), (''priority'', JStr ''high''), (''userId'', JNum 2)]"
    by (simp add: optional_members_typed_def obj_get_def)
  note T1 = create_validates_payload [OF a1, of milk_body epoch_only no_clock MemStorage_init]
  note T2 = create_validates_payload [OF a2, of no_title_body epoch_only no_clock milk_store]
  show ?thesis
    using T1 T2 a1 typed handle_milk_body handle_no_title_body
    by (simp add: obj_get_def)
qed

text \<open>
  C7 as stated fails: a payload whose title has 8 characters and whose priority is
  \<open>urgent\<close> is answered 400, and no task is created.
\<close>

theorem create_rejects_unknown_priority:
  "obj_get [(''title'', JStr ''Buy milk''), (''priority'', JStr ''urgent'')] ''title'' =
     Some (JStr ''Buy milk'') \<and>
   length ''Buy milk'' = 8 \<and>
   handle epoch_only no_clock MemStorage_init
       \<lparr>session_userId = Some 1, route = CreateTaskR urgent_body\<rparr> =
     (\<lparr>status = 400, body = ValidationFailed (ZodError [''priority''])\<rparr>, MemStorage_init, [])"
  by (simp add: handle_def requireAuth_def create_task_route_def insertTaskSchema_parse_def
      urgent_body_def obj_get_def zod_title_def zod_string_optional_def zod_priority_def
      priority_of_def zod_completed_def issue_def Let_def)

section \<open>Updates over HTTP\<close>

text \<open>
  What the update route hands to \<open>updateTask\<close>: never an \<open>id\<close>, and nothing for a
  member the payload leaves out (no default is filled in).
\<close>

lemma update_parse_Inr:
  assumes "updateTaskSchema_parse data = Inr u"
  obtains kvs t d p w c where "data = JObj kvs"
    and "zod_partial zod_title (obj_get kvs ''title'') = Some t"
    and "zod_string_optional (obj_get kvs ''description'') = Some d"
    and "zod_partial zod_priority (obj_get kvs ''priority'') = Some p"
    and "zod_string_optional (obj_get kvs ''dueDate'') = Some w"
    and "zod_partial zod_completed (obj_get kvs ''completed'') = Some c"
    and "u = \<lparr>upd_id = None, upd_title = t, upd_description = d, upd_priority = p,
              upd_dueDate = w, upd_completed = c\<rparr>"
proof (cases data)
  case (JObj kvs)
  show ?thesis
  proof (cases "zod_partial zod_title (obj_get kvs ''title'')")
    case None
    then show ?thesis using assms JObj by (simp add: updateTaskSchema_parse_def)
  next
    case t: (Some t)
    show ?thesis
    proof (cases "zod_string_optional (obj_get kvs ''description'')")
      case None
      then show ?thesis using assms JObj t by (simp add: updateTaskSchema_parse_def)
    next
      case d: (Some d)
      show ?thesis
      proof (cases "zod_partial zod_priority (obj_get kvs ''priority'')")
        case None
        then show ?thesis using assms JObj t d by (simp add: updateTaskSchema_parse_def)
      next
        case p: (Some p)
        show ?thesis
        proof (cases "zod_string_optional (obj_get kvs ''dueDate'')")
          case None
          then show ?thesis using assms JObj t d p by (simp add: updateTaskSchema_parse_def)
        next
          case w: (Some w)
          show ?thesis
          proof (cases "zod_partial zod_completed (obj_get kvs ''completed'')")
            case None
            then show ?thesis
              using assms JObj t d p w by (simp add: updateTaskSchema_parse_def)
          next
            case c: (Some c)
            have "u = \<lparr>upd_id = None, upd_title = t, upd_description = d, upd_priority = p,
              upd_dueDate = w, upd_completed = c\<rparr>"
              using assms JObj t d p w c by (simp add: updateTaskSchema_parse_def)
            then show ?thesis using that JObj t d p w c by blast
          qed
        qed
      qed
    qed
  qed
qed (use assms in \<open>simp_all add: updateTaskSchema_parse_def\<close>)

lemma update_parse_keeps_id: "updateTaskSchema_parse data = Inr u \<Longrightarrow> upd_id u = None"
  by (erule update_parse_Inr) simp

lemma zod_partial_absent: "zod_partial f None = Some None"
  by (simp add: zod_partial_def)

lemma zod_string_optional_absent: "zod_string_optional None = Some None"
  by (simp add: zod_string_optional_def)

lemma update_parse_absent:
  assumes "updateTaskSchema_parse (JObj kvs) = Inr u"
  shows "(obj_get kvs ''title'' = None \<longrightarrow> upd_title u = None) \<and>
         (obj_get kvs ''description'' = None \<longrightarrow> upd_description u = None) \<and>
         (obj_get kvs ''priority'' = None \<longrightarrow> upd_priority u = None) \<and>
         (obj_get kvs ''dueDate'' = None \<longrightarrow> upd_dueDate u = None) \<and>
         (obj_get kvs ''completed'' = None \<longrightarrow> upd_completed u = None)"
  using assms
  by (elim update_parse_Inr) (auto simp: zod_partial_absent zod_string_optional_absent)

section \<open>The id parameter\<close>

lemma parseInt_None_iff:
  "parseInt s = None \<longleftrightarrow>
     (let s0 = dropWhile is_space s;
          s1 = (if take 1 s0 = ''-'' \<or> take 1 s0 = ''+'' then drop 1 s0 else s0)
      in if take 2 s1 = ''0x'' \<or> take 2 s1 = ''0X''
         then drop 2 s1 = [] \<or> \<not> is_digit 16 (hd (drop 2 s1))
         else s1 = [] \<or> \<not> is_digit 10 (hd s1))"
  by (auto simp: parseInt_def Let_def takeWhile_eq_Nil_iff)

lemma is_digit_zero: "is_digit 10 CHR ''0''"
  by (simp add: is_digit_def digit_val_def)

text \<open>
  A parameter without any decimal digit is not a number for \<open>parseInt\<close>.
\<close>

lemma parseInt_no_digit:
  assumes "\<forall>c\<in>set s. \<not> is_digit 10 c"
  shows "parseInt s = None"
proof -
  define s0 where "s0 = dropWhile is_space s"
  define s1 where "s1 = (if take 1 s0 = ''-'' \<or> take 1 s0 = ''+'' then drop 1 s0 else s0)"
  have "set s0 \<subseteq> set s" unfolding s0_def by (auto dest: set_dropWhileD)
  moreover have "set (drop 1 s0) \<subseteq> set s0" by (rule set_drop_subset)
  ultimately have sub: "set s1 \<subseteq> set s" unfolding s1_def by (simp split: if_splits) blast
  have nodig: "\<not> is_digit 10 c" if "c \<in> set s1" for c using that sub assms by blast
  have nohex: "\<not> (take 2 s1 = ''0x'' \<or> take 2 s1 = ''0X'')"
  proof
    assume "take 2 s1 = ''0x'' \<or> take 2 s1 = ''0X''"
    then consider (lower) "take 2 s1 = ''0x''" | (upper) "take 2 s1 = ''0X''" by blast
    then have "CHR ''0'' \<in> set (take 2 s1)"
    proof cases
      case lower
      have "CHR ''0'' \<in> set ''0x''" by simp
      then show ?thesis unfolding lower .
    next
      case upper
      have "CHR ''0'' \<in> set ''0X''" by simp
      then show ?thesis unfolding upper .
    qed
    then have "CHR ''0'' \<in> set s1" by (rule in_set_takeD)
    then show False using nodig is_digit_zero by blast
  qed
  have first: "s1 = [] \<or> \<not> is_digit 10 (hd s1)"
  proof (cases s1)
    case (Cons x xs)
    then have "x \<in> set s1" by simp
    then show ?thesis using nodig Cons by simp
  qed simp
  have "parseInt s = None \<longleftrightarrow>
     (if take 2 s1 = ''0x'' \<or> take 2 s1 = ''0X''
         then drop 2 s1 = [] \<or> \<not> is_digit 16 (hd (drop 2 s1))
         else s1 = [] \<or> \<not> is_digit 10 (hd s1))"
    unfolding parseInt_None_iff Let_def s1_def s0_def ..
  then show ?thesis using nohex first by (simp only: if_False)
qed

lemma parseInt_abc: "parseInt ''abc'' = None"
  by (simp add: parseInt_def is_space_def is_digit_def digit_val_def Let_def)

lemma parseInt_1abc: "parseInt ''1abc'' = Some 1"
  by (simp add: parseInt_def is_space_def is_digit_def digit_val_def digits_value_def
      to_double_def Let_def)

text \<open>Above \<open>2^53\<close> the number read is the nearest double.\<close>

lemma bit_length_example: "bit_length 9007199254740993 = 54"
  by (simp add: bit_length.simps)

lemma to_double_example: "to_double 9007199254740993 = 9007199254740992"
  by (simp add: to_double_def bit_length_example Let_def)

lemma parseInt_rounds: "parseInt ''9007199254740993'' = Some 9007199254740992"
  by (simp add: parseInt_def is_space_def is_digit_def digit_val_def digits_value_def
      to_double_example Let_def)

text \<open>
  C9, as amended. A get, update or delete request of an authenticated caller whose id
  parameter \<open>parseInt\<close> reads as \<open>NaN\<close>, as it does every parameter without a decimal
  digit, is answered 400 \<open>Invalid task ID\<close>; no call is made on the store, and the store
  is as before.
\<close>

theorem invalid_id_rejected:
  assumes "requireAuth req = Some uid"
    and "route req = GetTaskR idp \<or> route req = UpdateTaskR idp data \<or> route req = DeleteTaskR idp"
  shows "(parseInt idp = None \<longrightarrow>
            handle parseDate clock st req =
              (\<lparr>status = 400, body = Message ''Invalid task ID''\<rparr>, st, [])) \<and>
         ((\<forall>c\<in>set idp. \<not> is_digit 10 c) \<longrightarrow>
            handle parseDate clock st req =
              (\<lparr>status = 400, body = Message ''Invalid task ID''\<rparr>, st, []))"
proof -
  have nan: "handle parseDate clock st req =
              (\<lparr>status = 400, body = Message ''Invalid task ID''\<rparr>, st, [])"
    if "parseInt idp = None"
    using assms that
    by (auto simp: handle_def get_task_route_def update_task_route_def delete_task_route_def
        invalid_id_def)
  show ?thesis
  proof (intro conjI impI)
    assume "parseInt idp = None"
    then show "handle parseDate clock st req =
              (\<lparr>status = 400, body = Message ''Invalid task ID''\<rparr>, st, [])"
      by (rule nan)
  next
    assume "\<forall>c\<in>set idp. \<not> is_digit 10 c"
    then have "parseInt idp = None" by (rule parseInt_no_digit)
    then show "handle parseDate clock st req =
              (\<lparr>status = 400, body = Message ''Invalid task ID''\<rparr>, st, [])"
      by (rule nan)
  qed
qed

lemma no_digit_abc: "\<forall>c\<in>set ''abc''. \<not> is_digit 10 c"
  by (simp add: is_digit_def digit_val_def)

theorem invalid_id_rejected_witness:
  "requireAuth \<lparr>session_userId = Some 1, route = DeleteTaskR ''abc''\<rparr> = Some 1 \<and>
   parseInt ''abc'' = None \<and>
   \<not> is_digit 10 CHR ''a'' \<and> \<not> is_digit 10 CHR ''b'' \<and> \<not> is_digit 10 CHR ''c'' \<and>
   handle epoch_only no_clock milk_store \<lparr>session_userId = Some 1, route = DeleteTaskR ''abc''\<rparr> =
     (\<lparr>status = 400, body = Message ''Invalid task ID''\<rparr>, milk_store, []) \<and>
   handle epoch_only no_clock milk_store \<lparr>session_userId = Some 1, route = GetTaskR ''abc''\<rparr> =
     (\<lparr>status = 400, body = Message ''Invalid task ID''\<rparr>, milk_store, []) \<and>
   handle epoch_only no_clock milk_store
       \<lparr>session_userId = Some 1, route = UpdateTaskR ''abc'' JNull\<rparr> =
     (\<lparr>status = 400, body = Message ''Invalid task ID''\<rparr>, milk_store, [])"
proof -
  have a: "requireAuth \<lparr>session_userId = Some 1, route = r\<rparr> = Some 1" for r
    by (simp add: requireAuth_def)
  show ?thesis
    using invalid_id_rejected [OF a, of "DeleteTaskR ''abc''" "''abc''" JNull epoch_only no_clock milk_store]
      invalid_id_rejected [OF a, of "GetTaskR ''abc''" "''abc''" JNull epoch_only no_clock milk_store]
      invalid_id_rejected [OF a, of "UpdateTaskR ''abc'' JNull" "''abc''" JNull epoch_only no_clock milk_store]
      a parseInt_abc no_digit_abc
    by simp
qed

text \<open>
  C9 as stated fails: \<open>parseInt\<close> reads the digits in front and ignores the rest, so
  the id parameter \<open>1abc\<close>, which is not a numeric string, addresses task 1: the get
  request is answered 200 with the task, the delete request removes it.
\<close>

theorem non_numeric_id_accepted:
  "\<not> list_all (is_digit 10) ''1abc'' \<and>
   handle epoch_only no_clock milk_store \<lparr>session_userId = Some 1, route = GetTaskR ''1abc''\<rparr> =
     (\<lparr>status = 200, body = TaskBody milk_task\<rparr>, milk_store, [Call_getTask 1 1]) \<and>
   handle epoch_only no_clock milk_store \<lparr>session_userId = Some 1, route = DeleteTaskR ''1abc''\<rparr> =
     (\<lparr>status = 204, body = Empty\<rparr>, \<lparr>tasks = [], nextTaskId = 2\<rparr>, [Call_deleteTask 1 1])"
  by (simp add: handle_def requireAuth_def get_task_route_def delete_task_route_def parseInt_1abc
      getTask_milk deleteTask_milk_owner is_digit_def digit_val_def)

section \<open>Ids along runs of operations and of requests\<close>

lemma created_ids_single:
  "created_ids [r] =
     (if status r = 201 then (case body r of TaskBody t \<Rightarrow> [taskId t] | _ \<Rightarrow> []) else [])"
  by (simp add: created_ids_def)

lemma created_ids_Cons: "created_ids (r # rs) = created_ids [r] @ created_ids rs"
  by (simp add: created_ids_def)

lemma step_ok_same: "store_inv st \<Longrightarrow> step_ok st st []"
  by (simp add: step_ok_def)

lemma handle_inv:
  assumes inv: "store_inv st" and h: "handle parseDate clock st req = (resp, st', calls)"
  shows "step_ok st st' (created_ids [resp])"
proof (cases "requireAuth req")
  case None
  then show ?thesis using h inv by (auto simp: handle_def created_ids_single step_ok_same)
next
  case (Some uid)
  show ?thesis
  proof (cases "route req")
    case ListTasks
    then show ?thesis
      using h inv Some by (auto simp: handle_def get_tasks_route_def created_ids_single step_ok_same)
  next
    case TaskStatsR
    then show ?thesis
      using h inv Some by (auto simp: handle_def get_stats_route_def created_ids_single step_ok_same)
  next
    case (GetTaskR idp)
    then show ?thesis
      using h inv Some
      by (auto simp: handle_def get_task_route_def created_ids_single step_ok_same invalid_id_def
          not_found_def split: option.splits)
  next
    case (CreateTaskR data)
    then have c: "create_task_route clock st uid data = (resp, st', calls)"
      using h Some by (simp add: handle_def)
    from create_route_cases [OF c] show ?thesis
    proof (elim disjE exE conjE)
      fix e assume "resp = \<lparr>status = 400, body = ValidationFailed e\<rparr>" "st' = st"
      then show ?thesis using inv by (simp add: created_ids_single step_ok_same)
    next
      fix v t
      assume ct: "createTask st (InsertTask.extend v (InsertTaskOwned.fields uid)) (clock 0) (clock 1)
                    = (t, st')"
        and r: "resp = \<lparr>status = 201, body = TaskBody t\<rparr>"
      note C = createTask_inv [OF inv ct]
      have "created_ids [resp] = [nextTaskId st]" using r C by (simp add: created_ids_single)
      moreover have "fst ` set (tasks st') \<subseteq> fst ` set (tasks st) \<union> {nextTaskId st}"
        using C by auto
      ultimately show ?thesis using C by (simp add: step_ok_def)
    qed
  next
    case (UpdateTaskR idp data)
    show ?thesis
    proof (cases "parseInt idp")
      case None
      then show ?thesis
        using h inv Some UpdateTaskR
        by (auto simp: handle_def update_task_route_def created_ids_single step_ok_same
            invalid_id_def)
    next
      case i: (Some i)
      show ?thesis
      proof (cases "updateTaskSchema_parse data")
        case (Inl e)
        then show ?thesis
          using h inv Some UpdateTaskR i
          by (auto simp: handle_def update_task_route_def created_ids_single step_ok_same)
      next
        case (Inr u)
        then have k: "upd_id u = None" by (rule update_parse_keeps_id)
        note U = updateTask_inv [OF inv k, of i uid "clock 0"]
        have s: "st' = snd (updateTask st i uid u (clock 0))" and "status resp \<noteq> 201"
          using h Some UpdateTaskR i Inr
          by (auto simp: handle_def update_task_route_def not_found_def
              split: prod.splits option.splits)
        then have "created_ids [resp] = []" by (simp add: created_ids_single)
        moreover have "fst ` set (tasks st') = fst ` set (tasks st)"
          using U s by (metis image_set)
        ultimately show ?thesis using U s by (simp add: step_ok_def)
      qed
    qed
  next
    case (DeleteTaskR idp)
    show ?thesis
    proof (cases "parseInt idp")
      case None
      then show ?thesis
        using h inv Some DeleteTaskR
        by (auto simp: handle_def delete_task_route_def created_ids_single step_ok_same
            invalid_id_def)
    next
      case i: (Some i)
      note D = deleteTask_inv [OF inv, of i uid]
      have s: "st' = snd (deleteTask st i uid)" and "status resp \<noteq> 201"
        using h Some DeleteTaskR i
        by (auto simp: handle_def delete_task_route_def not_found_def
            split: prod.splits bool.splits)
      then have "created_ids [resp] = []" by (simp add: created_ids_single)
      moreover have "fst ` set (tasks st') \<subseteq> fst ` set (tasks st)"
        using D s by blast
      ultimately show ?thesis using D s by (auto simp: step_ok_def)
    qed
  qed
qed

lemma serve_inv:
  "store_inv st \<Longrightarrow> serve parseDate st rcs = (st', resps) \<Longrightarrow>
     store_inv st' \<and> sorted_wrt (<) (created_ids resps) \<and>
     (\<forall>i\<in>set (created_ids resps). nextTaskId st \<le> i \<and> i < nextTaskId st') \<and>
     nextTaskId st \<le> nextTaskId st' \<and>
     fst ` set (tasks st') \<subseteq> fst ` set (tasks st) \<union> set (created_ids resps)"
proof (induction rcs arbitrary: st st' resps)
  case Nil
  then show ?case by (simp add: created_ids_def)
next
  case (Cons rc rcs)
  obtain resp s1 calls where h: "handle parseDate (snd rc) st (fst rc) = (resp, s1, calls)"
    by (cases "handle parseDate (snd rc) st (fst rc)")
  obtain s2 rs where r2: "serve parseDate s1 rcs = (s2, rs)" by (cases "serve parseDate s1 rcs")
  have eq: "st' = s2" "resps = resp # rs" using Cons.prems(2) h r2 by auto
  note A = handle_inv [OF Cons.prems(1) h, unfolded step_ok_def]
  have inv1: "store_inv s1" using A by simp
  note IH = Cons.IH [OF inv1 r2]
  have ids: "created_ids resps = created_ids [resp] @ created_ids rs"
    unfolding eq by (rule created_ids_Cons)
  have keys: "fst ` set (tasks s2) \<subseteq>
      fst ` set (tasks st) \<union> set (created_ids [resp]) \<union> set (created_ids rs)"
    using A IH by blast
  from A consider (none) "created_ids [resp] = []" "nextTaskId s1 = nextTaskId st"
    | (one) "created_ids [resp] = [nextTaskId st]" "nextTaskId s1 = nextTaskId st + 1"
    by blast
  then show ?case
  proof cases
    case none
    then show ?thesis using IH eq ids keys by simp
  next
    case one
    have "sorted_wrt (<) (nextTaskId st # created_ids rs)" using IH one by auto
    moreover have "\<forall>j\<in>set (nextTaskId st # created_ids rs).
        nextTaskId st \<le> j \<and> j < nextTaskId s2"
      using IH one by auto
    moreover have "nextTaskId st \<le> nextTaskId s2" using IH one by simp
    moreover have "fst ` set (tasks s2) \<subseteq>
        fst ` set (tasks st) \<union> set (nextTaskId st # created_ids rs)"
      using keys one by auto
    ultimately show ?thesis using IH eq ids one by simp
  qed
qed

text \<open>
  The counter alone decides the ids: whatever the operation and whatever the store,
  \<open>createTask\<close> hands out the counter and advances it, and nothing else moves it.
\<close>

lemma apply_op_counter:
  "apply_op st op = (st', r) \<Longrightarrow>
     (case r of None \<Rightarrow> nextTaskId st' = nextTaskId st
      | Some i \<Rightarrow> i = nextTaskId st \<and> nextTaskId st' = i + 1)"
proof (cases op)
  case (Op_create d t1 t2)
  assume a: "apply_op st op = (st', r)"
  show ?thesis
    using a Op_create by (auto simp: createTask_def Let_def)
next
  case (Op_update i uid u now)
  assume a: "apply_op st op = (st', r)"
  show ?thesis
    using a Op_update by (auto simp: updateTask_def Let_def split: option.splits)
next
  case (Op_delete i uid)
  assume a: "apply_op st op = (st', r)"
  show ?thesis
    using a Op_delete by (auto simp: deleteTask_def split: option.splits prod.splits)
qed

lemma run_ids:
  "run st ops = (st', ids) \<Longrightarrow>
     sorted_wrt (<) ids \<and> (\<forall>i\<in>set ids. nextTaskId st \<le> i \<and> i < nextTaskId st') \<and>
     nextTaskId st \<le> nextTaskId st'"
proof (induction ops arbitrary: st st' ids)
  case Nil
  then show ?case by simp
next
  case (Cons op ops)
  obtain s1 r where a: "apply_op st op = (s1, r)" by (cases "apply_op st op")
  obtain s2 ids2 where r2: "run s1 ops = (s2, ids2)" by (cases "run s1 ops")
  have eq: "st' = s2" "ids = (case r of None \<Rightarrow> [] | Some i \<Rightarrow> [i]) @ ids2"
    using Cons.prems a r2 by auto
  note A = apply_op_counter [OF a]
  note IH = Cons.IH [OF r2]
  show ?case
  proof (cases r)
    case None
    then have "nextTaskId s1 = nextTaskId st" using A by simp
    then show ?thesis using IH eq None by simp
  next
    case (Some i)
    then have i: "i = nextTaskId st" "nextTaskId s1 = i + 1" using A by auto
    have "sorted_wrt (<) (i # ids2)" using IH i by auto
    moreover have "\<forall>j\<in>set (i # ids2). nextTaskId st \<le> j \<and> j < nextTaskId s2"
      using IH i by auto
    moreover have "nextTaskId st \<le> nextTaskId s2" using IH i by simp
    ultimately show ?thesis using eq Some by simp
  qed
qed

lemma stored_ids_summary:
  assumes "store_inv st" and "fst ` set (tasks st) \<subseteq> set ids"
  shows "distinct (map taskId (Map_values (tasks st))) \<and>
         set (map taskId (Map_values (tasks st))) \<subseteq> set ids \<and>
         (\<forall>p\<in>set (tasks st). taskId (snd p) = fst p)"
proof -
  have ids: "map taskId (Map_values (tasks st)) = map fst (tasks st)"
    by (rule store_inv_ids [OF assms(1)])
  have "distinct (map fst (tasks st))" using assms(1) by (simp add: store_inv_def)
  moreover have "set (map fst (tasks st)) \<subseteq> set ids" using assms(2) by simp
  moreover have "\<forall>p\<in>set (tasks st). taskId (snd p) = fst p"
    using assms(1) by (auto simp: store_inv_def list_all_iff)
  ultimately show ?thesis using ids by simp
qed

text \<open>
  C10, as amended. Along every run of create, update and delete operations on the
  in-memory store from its empty state, the ids handed out by \<open>createTask\<close> are strictly
  increasing, so each is greater than all earlier ones and none is handed out twice,
  whatever was deleted in between. When no update carries an \<open>id\<close> among its fields,
  the stored tasks have pairwise distinct ids, each the key it is stored under and one
  of the ids handed out. Both hold along every sequence of requests to the task routes,
  whose updates never carry an \<open>id\<close>.
\<close>

theorem task_ids_never_reused:
  "(run MemStorage_init ops = (st, ids) \<longrightarrow>
      sorted_wrt (<) ids \<and> distinct ids \<and>
      (\<forall>i\<in>set ids. 1 \<le> i \<and> i < nextTaskId st)) \<and>
   (list_all keeps_id ops \<and> run MemStorage_init ops = (st, ids) \<longrightarrow>
      distinct (map taskId (Map_values (tasks st))) \<and>
      set (map taskId (Map_values (tasks st))) \<subseteq> set ids \<and>
      (\<forall>p\<in>set (tasks st). taskId (snd p) = fst p)) \<and>
   (serve parseDate MemStorage_init rcs = (st2, resps) \<longrightarrow>
      sorted_wrt (<) (created_ids resps) \<and> distinct (created_ids resps) \<and>
      (\<forall>i\<in>set (created_ids resps). 1 \<le> i \<and> i < nextTaskId st2) \<and>
      distinct (map taskId (Map_values (tasks st2))) \<and>
      set (map taskId (Map_values (tasks st2))) \<subseteq> set (created_ids resps) \<and>
      (\<forall>p\<in>set (tasks st2). taskId (snd p) = fst p))"
proof -
  have one: "sorted_wrt (<) ids \<and> distinct ids \<and>
      (\<forall>i\<in>set ids. 1 \<le> i \<and> i < nextTaskId st)"
    if r: "run MemStorage_init ops = (st, ids)"
  proof -
    note R = run_ids [OF r]
    have "distinct ids" using R by (simp add: strict_sorted_iff)
    then show ?thesis using R by (simp add: MemStorage_init_def)
  qed
  have two: "distinct (map taskId (Map_values (tasks st))) \<and>
      set (map taskId (Map_values (tasks st))) \<subseteq> set ids \<and>
      (\<forall>p\<in>set (tasks st). taskId (snd p) = fst p)"
    if k: "list_all keeps_id ops" and r: "run MemStorage_init ops = (st, ids)"
  proof -
    note R = run_inv [OF store_inv_init k r]
    show ?thesis using R by (intro stored_ids_summary) (simp_all add: MemStorage_init_def)
  qed
  have three: "sorted_wrt (<) (created_ids resps) \<and> distinct (created_ids resps) \<and>
      (\<forall>i\<in>set (created_ids resps). 1 \<le> i \<and> i < nextTaskId st2) \<and>
      distinct (map taskId (Map_values (tasks st2))) \<and>
      set (map taskId (Map_values (tasks st2))) \<subseteq> set (created_ids resps) \<and>
      (\<forall>p\<in>set (tasks st2). taskId (snd p) = fst p)"
    if s: "serve parseDate MemStorage_init rcs = (st2, resps)"
  proof -
    note S = serve_inv [OF store_inv_init s]
    have "distinct (created_ids resps)" using S by (simp add: strict_sorted_iff)
    moreover have "distinct (map taskId (Map_values (tasks st2))) \<and>
      set (map taskId (Map_values (tasks st2))) \<subseteq> set (created_ids resps) \<and>
      (\<forall>p\<in>set (tasks st2). taskId (snd p) = fst p)"
      using S by (intro stored_ids_summary) (simp_all add: MemStorage_init_def)
    ultimately show ?thesis using S by (simp add: MemStorage_init_def)
  qed
  show ?thesis using one two three by blast
qed

lemma run_busy_day:
  "run MemStorage_init busy_day =
     (\<lparr>tasks =
         [(2, \<lparr>taskId = 2, title = ''Buy oats'', description = Some ''rolled'',
               priority = Medium, dueDate = Some ''1970-01-01'', completed = True,
               userId = 1, createdAt = 2000, updatedAt = 2500\<rparr>),
          (3, \<lparr>taskId = 3, title = ''Buy milk'', description = None, priority = High,
               dueDate = None, completed = False, userId = 1, createdAt = 3000,
               updatedAt = 3001\<rparr>)],
       nextTaskId = 4\<rparr>,
      [1, 2, 3])"
  by (simp add: busy_day_def MemStorage_init_def createTask_def updateTask_def deleteTask_def
      getTask_def Map_get_def Map_delete_def spread_updates_def milk_def oat_def
      mark_done_def or_null_def Let_def)

lemma keeps_id_busy_day: "list_all keeps_id busy_day"
  by (simp add: busy_day_def mark_done_def)

lemma handle_delete_milk:
  "handle epoch_only no_clock milk_store \<lparr>session_userId = Some 1, route = DeleteTaskR ''1''\<rparr> =
     (\<lparr>status = 204, body = Empty\<rparr>, \<lparr>tasks = [], nextTaskId = 2\<rparr>, [Call_deleteTask 1 1])"
  by (simp add: handle_def requireAuth_def delete_task_route_def deleteTask_milk_owner
      parseInt_1)

lemma handle_milk_again:
  "handle epoch_only no_clock \<lparr>tasks = [], nextTaskId = 2\<rparr>
       \<lparr>session_userId = Some 2, route = CreateTaskR milk_body\<rparr> =
     (\<lparr>status = 201, body = TaskBody (milk_task\<lparr>taskId := 2, userId := 2\<rparr>)\<rparr>,
      \<lparr>tasks = [(2, milk_task\<lparr>taskId := 2, userId := 2\<rparr>)], nextTaskId = 3\<rparr>,
      [Call_createTask (milk_parsed\<lparr>ins_userId := 2\<rparr>)])"
  by (simp add: handle_def requireAuth_def create_task_route_def insertTaskSchema_parse_def
      milk_body_def obj_get_def zod_title_def zod_string_optional_def zod_priority_def
      priority_of_def zod_completed_def createTask_def or_null_def
      no_clock_def milk_task_def milk_def milk_parsed_def Let_def
      InsertTask.extend_def InsertTaskOwned.fields_def)

lemma serve_busy_requests:
  "serve epoch_only MemStorage_init busy_requests =
     (\<lparr>tasks = [(2, milk_task\<lparr>taskId := 2, userId := 2\<rparr>)], nextTaskId = 3\<rparr>,
      [\<lparr>status = 201, body = TaskBody milk_task\<rparr>,
       \<lparr>status = 204, body = Empty\<rparr>,
       \<lparr>status = 201, body = TaskBody (milk_task\<lparr>taskId := 2, userId := 2\<rparr>)\<rparr>])"
  by (simp add: busy_requests_def handle_milk_body handle_delete_milk handle_milk_again)

theorem task_ids_never_reused_witness:
  "list_all keeps_id busy_day \<and>
   snd (run MemStorage_init busy_day) = [1, 2, 3] \<and>
   map fst (tasks (fst (run MemStorage_init busy_day))) = [2, 3] \<and>
   map taskId (Map_values (tasks (fst (run MemStorage_init busy_day)))) = [2, 3] \<and>
   nextTaskId (fst (run MemStorage_init busy_day)) = 4 \<and>
   created_ids (snd (serve epoch_only MemStorage_init busy_requests)) = [1, 2] \<and>
   map taskId (Map_values (tasks (fst (serve epoch_only MemStorage_init busy_requests)))) = [2]"
  using task_ids_never_reused [of busy_day
      "fst (run MemStorage_init busy_day)" "snd (run MemStorage_init busy_day)"
      epoch_only busy_requests
      "fst (serve epoch_only MemStorage_init busy_requests)"
      "snd (serve epoch_only MemStorage_init busy_requests)"]
    keeps_id_busy_day
  by (simp add: run_busy_day serve_busy_requests Map_values_def created_ids_def milk_task_def)

text \<open>
  C10 as stated fails: the fields of \<open>updateTask\<close> may carry an \<open>id\<close>, which the object
  spread writes over the task's own. After two creates, an update of task 1 with the
  id 2 among its fields leaves two stored tasks with id 2; the ids handed out are
  still 1 and 2.
\<close>

theorem update_with_id_duplicates_ids:
  "snd (run MemStorage_init id_rewrite_day) = [1, 2] \<and>
   map fst (tasks (fst (run MemStorage_init id_rewrite_day))) = [1, 2] \<and>
   map taskId (Map_values (tasks (fst (run MemStorage_init id_rewrite_day)))) = [2, 2] \<and>
   \<not> distinct (map taskId (Map_values (tasks (fst (run MemStorage_init id_rewrite_day)))))"
  by (simp add: id_rewrite_day_def MemStorage_init_def createTask_def updateTask_def
      getTask_def Map_get_def Map_values_def spread_updates_def milk_def oat_def
      mark_done_def or_null_def Let_def)

end
